theory Spec2Isabelle
  imports Complex_Main
begin

section \<open>Double-precision arithmetic\<close>

text \<open>
  The claims about the coordinate transform are claims about rounding, so its arithmetic
  is modelled as IEEE 754 binary64 with the default rounding (to nearest, ties to even):
  every operation of the source is the exact operation on reals followed by \<open>fl\<close>.
  \<open>fl\<close> rounds to 53 significant bits, with the fixed quantum \<open>2 ^ -1074\<close> below
  \<open>2 ^ -1022\<close> (subnormal numbers).  Overflow, infinities, NaN and the sign of zero
  are not modelled: the transform's values stay below \<open>16\<close> in magnitude.
\<close>

definition round_even :: "real \<Rightarrow> int" where
  "round_even y =
     (let n = \<lfloor>y\<rfloor>; r = y - of_int n
      in if r < 1 / 2 then n else if 1 / 2 < r then n + 1 else if even n then n else n + 1)"

definition fl :: "real \<Rightarrow> real" where
  "fl x =
     (if x = 0 then 0
      else (let e = max \<lfloor>log 2 \<bar>x\<bar>\<rfloor> (- 1022);
                q = 2 powi (e - 52)
            in of_int (round_even (x / q)) * q))"

text \<open>The four arithmetic operators of the source on doubles.\<close>

definition fadd :: "real \<Rightarrow> real \<Rightarrow> real" where
  "fadd a b = fl (a + b)"

definition fsub :: "real \<Rightarrow> real \<Rightarrow> real" where
  "fsub a b = fl (a - b)"

definition fmul :: "real \<Rightarrow> real \<Rightarrow> real" where
  "fmul a b = fl (a * b)"

definition fdiv :: "real \<Rightarrow> real \<Rightarrow> real" where
  "fdiv a b = fl (a / b)"

text \<open>\<open>Math.PI\<close>, the double nearest to \<open>pi\<close>: \<open>3.141592653589793\<close>.\<close>

definition Math_PI :: real where
  "Math_PI = 884279719003555 / 2 ^ 48"

section \<open>Coordinate transform (client/src/lib/coordinateTransform.ts)\<close>

text \<open>
  Record fields carry a short prefix because record fields are global constants in HOL
  (\<open>x\<close>, \<open>time\<close>, \<open>id\<close> would clash).
\<close>

record LogicalCoordinates =
  lc_frequency :: real
  lc_time :: real

record DisplayCoordinates =
  dc_x :: real
  dc_y :: real
  dc_z :: real

text \<open>
  The private \<open>params\<close> object of \<open>CoordinateTransform\<close>: \<open>arcSpan: Math.PI / 3\<close> (a
  double division), \<open>maxRadius: 10\<close> and \<open>mouthWidth: 0.3\<close> (the double nearest to
  \<open>0.3\<close>).
\<close>

definition arcSpanD :: real where
  "arcSpanD = fdiv Math_PI 3"

definition maxRadius :: real where
  "maxRadius = 10"

definition mouthWidth :: real where
  "mouthWidth = fl (3 / 10)"

text \<open>
  \<open>Math.tan\<close> is a library function whose result the language leaves to the
  implementation.  The source calls it on one argument only, \<open>arcSpan / 2\<close>; the double
  it returns there is the parameter \<open>tanHalfArc\<close> of both transforms (about \<open>0.577\<close>).
\<close>

definition logicalToDisplay :: "real \<Rightarrow> LogicalCoordinates \<Rightarrow> DisplayCoordinates" where
  "logicalToDisplay tanHalfArc logical =
     (let radius = fmul (lc_time logical) maxRadius;
          isLeftHalf = lc_frequency logical < 0.5;
          normalizedFreq = (if isLeftHalf then fmul (fsub 0.5 (lc_frequency logical)) 2
                            else fmul (fsub (lc_frequency logical) 0.5) 2);
          angle = (if isLeftHalf then fmul (- normalizedFreq) (fdiv arcSpanD 2)
                   else fmul normalizedFreq (fdiv arcSpanD 2));
          currentWidth = fadd mouthWidth (fmul radius tanHalfArc);
          x = fmul currentWidth (fdiv angle (fdiv arcSpanD 2))
      in \<lparr>dc_x = x, dc_y = 0, dc_z = radius\<rparr>)"

definition displayToLogical :: "real \<Rightarrow> DisplayCoordinates \<Rightarrow> LogicalCoordinates" where
  "displayToLogical tanHalfArc display =
     (let radius = dc_z display;
          time = fdiv radius maxRadius;
          isLeftHalf = dc_x display < 0;
          currentWidth = fadd mouthWidth (fmul radius tanHalfArc)
      in if currentWidth = 0
         then \<lparr>lc_frequency = 0.5, lc_time = max 0 (min 1 time)\<rparr>
         else
           (let normalizedPosition = fdiv \<bar>dc_x display\<bar> currentWidth;
                normalizedFreq = max 0 (min 1 normalizedPosition);
                frequency = (if isLeftHalf then fsub 0.5 (fmul normalizedFreq 0.5)
                             else fadd 0.5 (fmul normalizedFreq 0.5))
            in \<lparr>lc_frequency = max 0 (min 1 frequency),
                lc_time = max 0 (min 1 time)\<rparr>))"

definition isWithinBounds :: "LogicalCoordinates \<Rightarrow> bool" where
  "isWithinBounds logical \<longleftrightarrow>
     lc_frequency logical \<ge> 0 \<and> lc_frequency logical \<le> 1 \<and>
     lc_time logical \<ge> 0 \<and> lc_time logical \<le> 1"

text \<open>
  The double \<open>0.5773502691896257\<close>, the value of \<open>Math.tan(Math.PI / 3 / 2)\<close> in the
  common implementations; used where a statement needs a concrete value.
\<close>

definition tanHalfArcDouble :: real where
  "tanHalfArcDouble = 1300077228592327 / 2 ^ 51"

section \<open>Spectrogram engine (client/src/lib/polarWaveEngine.ts)\<close>

text \<open>
  In the two engines JavaScript numbers are modelled as mathematical reals: rounding,
  infinities and NaN of IEEE doubles are outside their model.
\<close>

datatype PhoneticType = Vowel | Trill | Fricative | Plosive

record SpectrogramData =
  sd_timeIndex :: real
  sd_frequencyBins :: "real list"

record PolarWave =
  pw_id :: string
  pw_birthTime :: real
  pw_type :: PhoneticType
  pw_spectrograms :: "SpectrogramData list"
  pw_currentTimeIndex :: int
  pw_maxTimeIndex :: int
  pw_isActive :: bool

text \<open>
  One entry of \<open>phoneticProfiles\<close>.  Only the trill entry has a \<open>modulationRate\<close>;
  the field is optional and read through JavaScript truthiness.
\<close>

record PhoneticProfile =
  pp_duration :: real
  pp_peakFrequencies :: "real list"
  pp_bandwidth :: real
  pp_amplitude :: real
  pp_attackTime :: real
  pp_sustainLevel :: real
  pp_decayTime :: real
  pp_modulationRate :: "real option"

text \<open>The mutable fields of a \<open>PolarWaveEngine\<close> instance.\<close>

record PolarWaveEngine =
  pe_waves :: "PolarWave list"
  pe_time :: real
  pe_waveId :: nat

definition frequencyBins :: nat where
  "frequencyBins = 100"

fun phoneticProfiles :: "PhoneticType \<Rightarrow> PhoneticProfile" where
  "phoneticProfiles Vowel =
     \<lparr>pp_duration = 800, pp_peakFrequencies = [300, 1200, 2500], pp_bandwidth = 200,
      pp_amplitude = 0.8, pp_attackTime = 50, pp_sustainLevel = 0.9, pp_decayTime = 200,
      pp_modulationRate = None\<rparr>"
| "phoneticProfiles Trill =
     \<lparr>pp_duration = 600, pp_peakFrequencies = [1000, 2000], pp_bandwidth = 300,
      pp_amplitude = 0.6, pp_attackTime = 20, pp_sustainLevel = 0.7, pp_decayTime = 100,
      pp_modulationRate = Some 25\<rparr>"
| "phoneticProfiles Fricative =
     \<lparr>pp_duration = 400, pp_peakFrequencies = [3000, 5000, 7000], pp_bandwidth = 1000,
      pp_amplitude = 0.4, pp_attackTime = 30, pp_sustainLevel = 0.8, pp_decayTime = 150,
      pp_modulationRate = None\<rparr>"
| "phoneticProfiles Plosive =
     \<lparr>pp_duration = 200, pp_peakFrequencies = [500, 1500, 4000], pp_bandwidth = 800,
      pp_amplitude = 1.0, pp_attackTime = 5, pp_sustainLevel = 0.3, pp_decayTime = 50,
      pp_modulationRate = None\<rparr>"

declare phoneticProfiles.simps [simp del]

text \<open>The initial field values of the class, which \<open>reset\<close> restores.\<close>

definition initialEngine :: PolarWaveEngine where
  "initialEngine = \<lparr>pe_waves = [], pe_time = 0, pe_waveId = 0\<rparr>"

subsection \<open>generateSpectrogramFrame\<close>

definition frequencyToBinIndex :: "real \<Rightarrow> int" where
  "frequencyToBinIndex frequency =
     (let minFreq = 100; maxFreq = 8000;
          normalizedFreq = (frequency - minFreq) / (maxFreq - minFreq)
      in \<lfloor>normalizedFreq * (real frequencyBins - 1)\<rfloor>)"

text \<open>
  The local variable \<open>envelope\<close> as lines 94--102 leave it (attack, decay, sustain
  branches in the order of the source).
\<close>

definition envelope :: "real \<Rightarrow> PhoneticProfile \<Rightarrow> real" where
  "envelope timeIndex profile =
     (if timeIndex < pp_attackTime profile then timeIndex / pp_attackTime profile
      else if timeIndex > pp_duration profile - pp_decayTime profile then
        (let decayProgress =
               (timeIndex - (pp_duration profile - pp_decayTime profile)) / pp_decayTime profile
         in 1.0 - decayProgress)
      else pp_sustainLevel profile)"

text \<open>JavaScript truthiness of the optional number \<open>profile.modulationRate\<close>.\<close>

definition truthy :: "real option \<Rightarrow> bool" where
  "truthy v = (case v of None \<Rightarrow> False | Some r \<Rightarrow> r \<noteq> 0)"

text \<open>The envelope after the trill modulation of lines 105--108.\<close>

definition modulatedEnvelope :: "PhoneticType \<Rightarrow> real \<Rightarrow> PhoneticProfile \<Rightarrow> real" where
  "modulatedEnvelope phoneticType timeIndex profile =
     (let normalizedTime = timeIndex / pp_duration profile;
          env = envelope timeIndex profile
      in if phoneticType = Trill \<and> truthy (pp_modulationRate profile) then
           (let modulation = sin (normalizedTime * the (pp_modulationRate profile) * pi * 2)
            in env * (0.7 + 0.3 * modulation))
         else env)"

definition gaussian :: "int \<Rightarrow> int \<Rightarrow> int \<Rightarrow> real" where
  "gaussian i binIndex bandwidthBins =
     (let distance = \<bar>i - binIndex\<bar>
      in exp (- real_of_int (distance * distance) /
                (2 * (real_of_int bandwidthBins / 3) * (real_of_int bandwidthBins / 3))))"

text \<open>
  The body of \<open>peakFrequencies.forEach\<close> for one centre frequency: the inner
  \<open>for\<close> loop runs over the bins \<open>max 0 (binIndex - bandwidthBins)\<close> up to, and not
  including, \<open>min frequencyBins (binIndex + bandwidthBins)\<close>, adding to each in place.
\<close>

definition addPeak :: "PhoneticProfile \<Rightarrow> real \<Rightarrow> real \<Rightarrow> real list \<Rightarrow> real list" where
  "addPeak profile env centerFreq bins =
     (let binIndex = frequencyToBinIndex centerFreq;
          bandwidthBins = \<lfloor>pp_bandwidth profile / 80\<rfloor>;
          lo = max 0 (binIndex - bandwidthBins);
          hi = min (int frequencyBins) (binIndex + bandwidthBins)
      in fold (\<lambda>i bs. bs[i := bs ! i + pp_amplitude profile * env * gaussian (int i) binIndex bandwidthBins])
           [nat lo ..< nat hi] bins)"

text \<open>
  The fricative noise loop.  \<open>Math.random()\<close> is modelled by the argument \<open>rnd\<close>:
  \<open>rnd i\<close> is the draw made for bin \<open>i\<close>, a number in \<open>[0, 1)\<close>.
\<close>

definition addNoise :: "(nat \<Rightarrow> real) \<Rightarrow> real \<Rightarrow> real list \<Rightarrow> real list" where
  "addNoise rnd env bins =
     fold (\<lambda>i bs. bs[i := bs ! i + rnd i * 0.1 * env]) [0 ..< frequencyBins] bins"

text \<open>The bins after \<open>peakFrequencies.forEach\<close> (lines 111--123), starting from all zeros.\<close>

definition peakBins :: "PhoneticProfile \<Rightarrow> real \<Rightarrow> real list" where
  "peakBins profile env =
     fold (addPeak profile env) (pp_peakFrequencies profile) (replicate frequencyBins 0)"

text \<open>The bins just before the normalisation step (line 131).\<close>

definition rawFrequencyBins ::
  "PhoneticType \<Rightarrow> real \<Rightarrow> PhoneticProfile \<Rightarrow> (nat \<Rightarrow> real) \<Rightarrow> real list" where
  "rawFrequencyBins phoneticType timeIndex profile rnd =
     (let env = modulatedEnvelope phoneticType timeIndex profile;
          peaks = peakBins profile env
      in if phoneticType = Fricative then addNoise rnd env peaks else peaks)"

text \<open>
  Lines 132--138.  \<open>Math.max\<close> of no arguments is \<open>-Infinity\<close>, so an empty array is
  left alone as well.
\<close>

definition normalizeBins :: "real list \<Rightarrow> real list" where
  "normalizeBins bins =
     (if bins \<noteq> [] \<and> Max (set bins) > 0
      then map (\<lambda>b. max 0 (b / Max (set bins))) bins
      else bins)"

definition generateSpectrogramFrame ::
  "PhoneticType \<Rightarrow> real \<Rightarrow> PhoneticProfile \<Rightarrow> (nat \<Rightarrow> real) \<Rightarrow> SpectrogramData" where
  "generateSpectrogramFrame phoneticType timeIndex profile rnd =
     \<lparr>sd_timeIndex = timeIndex,
      sd_frequencyBins = normalizeBins (rawFrequencyBins phoneticType timeIndex profile rnd)\<rparr>"

subsection \<open>The engine's operations\<close>

text \<open>Decimal printing of the id counter, as the template literal does.\<close>

definition digit_char :: "nat \<Rightarrow> char" where
  "digit_char d = ''0123456789'' ! d"

fun string_of_nat :: "nat \<Rightarrow> string" where
  "string_of_nat n =
     (if n < 10 then [digit_char n]
      else string_of_nat (n div 10) @ [digit_char (n mod 10)])"

declare string_of_nat.simps [simp del]

text \<open>
  \<open>generateWave\<close>.  The draws of \<open>Math.random()\<close> made while the frames are built are
  the argument \<open>rnd\<close>: frame \<open>t\<close> of a fricative uses draws \<open>100 * t + i\<close>.
\<close>

definition generateWave :: "PhoneticType \<Rightarrow> (nat \<Rightarrow> real) \<Rightarrow> PolarWaveEngine \<Rightarrow> PolarWaveEngine" where
  "generateWave phoneticType rnd s =
     (let profile = phoneticProfiles phoneticType;
          maxT = \<lfloor>pp_duration profile\<rfloor>;
          wave = \<lparr>pw_id = ''wave-'' @ string_of_nat (pe_waveId s),
                  pw_birthTime = pe_time s,
                  pw_type = phoneticType,
                  pw_spectrograms =
                    map (\<lambda>t. generateSpectrogramFrame phoneticType (real t) profile
                               (\<lambda>i. rnd (frequencyBins * t + i)))
                      [0 ..< nat maxT],
                  pw_currentTimeIndex = 0,
                  pw_maxTimeIndex = maxT,
                  pw_isActive = True\<rparr>
      in s\<lparr>pe_waves := pe_waves s @ [wave], pe_waveId := pe_waveId s + 1\<rparr>)"

text \<open>
  The body of \<open>waves.forEach\<close> in \<open>updateTime\<close> for one wave at clock value \<open>now\<close>:
  the wave as mutated, and the frames it pushes.  \<open>wave.spectrograms[k]\<close> is
  \<open>undefined\<close> (falsy) when \<open>k\<close> is negative or past the end.
\<close>

definition updateWave :: "real \<Rightarrow> PolarWave \<Rightarrow> PolarWave \<times> SpectrogramData list" where
  "updateWave now wave =
     (if pw_isActive wave then
        (let age = now - pw_birthTime wave;
             newTimeIndex = \<lfloor>age * 10\<rfloor>
         in if newTimeIndex < pw_maxTimeIndex wave then
              (wave\<lparr>pw_currentTimeIndex := newTimeIndex\<rparr>,
               if 0 \<le> newTimeIndex \<and> newTimeIndex < int (length (pw_spectrograms wave))
               then [pw_spectrograms wave ! nat newTimeIndex] else [])
            else (wave\<lparr>pw_isActive := False\<rparr>, []))
      else (wave, []))"

definition updateTime :: "real \<Rightarrow> PolarWaveEngine \<Rightarrow> SpectrogramData list \<times> PolarWaveEngine" where
  "updateTime deltaTime s =
     (let now = pe_time s + deltaTime;
          results = map (updateWave now) (pe_waves s);
          activeSpectrograms = concat (map snd results)
      in (activeSpectrograms,
          s\<lparr>pe_waves := filter pw_isActive (map fst results), pe_time := now\<rparr>))"

definition getActiveWaveCount :: "PolarWaveEngine \<Rightarrow> nat" where
  "getActiveWaveCount s = length (filter pw_isActive (pe_waves s))"

definition reset :: "PolarWaveEngine \<Rightarrow> PolarWaveEngine" where
  "reset s = s\<lparr>pe_waves := [], pe_time := 0, pe_waveId := 0\<rparr>"

subsection \<open>Sequences of calls on one engine\<close>

text \<open>
  The public methods that change the engine, as calls; \<open>run\<close> performs a sequence of
  them in order.  The states reachable from a fresh engine are \<open>run calls initialEngine\<close>.
\<close>

datatype EngineCall =
    GenerateWave PhoneticType "nat \<Rightarrow> real"
  | UpdateTime real
  | Reset

fun call :: "EngineCall \<Rightarrow> PolarWaveEngine \<Rightarrow> PolarWaveEngine" where
  "call (GenerateWave phoneticType rnd) s = generateWave phoneticType rnd s"
| "call (UpdateTime deltaTime) s = snd (updateTime deltaTime s)"
| "call Reset s = reset s"

definition run :: "EngineCall list \<Rightarrow> PolarWaveEngine \<Rightarrow> PolarWaveEngine" where
  "run calls s = fold call calls s"

text \<open>The wave a \<open>generateWave\<close> call pushes: the last one of the array afterwards.\<close>

definition newWave :: "PhoneticType \<Rightarrow> (nat \<Rightarrow> real) \<Rightarrow> PolarWaveEngine \<Rightarrow> PolarWave" where
  "newWave phoneticType rnd s = last (pe_waves (generateWave phoneticType rnd s))"

text \<open>The ids assigned, in order, by the \<open>generateWave\<close> calls of a sequence started in \<open>s\<close>.\<close>

fun issuedIds :: "EngineCall list \<Rightarrow> PolarWaveEngine \<Rightarrow> string list" where
  "issuedIds [] s = []"
| "issuedIds (GenerateWave phoneticType rnd # calls) s =
     pw_id (newWave phoneticType rnd s) # issuedIds calls (generateWave phoneticType rnd s)"
| "issuedIds (c # calls) s = issuedIds calls (call c s)"

text \<open>A call that does not move the clock backwards.\<close>

fun nonnegDelta :: "EngineCall \<Rightarrow> bool" where
  "nonnegDelta (UpdateTime deltaTime) = (0 \<le> deltaTime)"
| "nonnegDelta c = True"

section \<open>Simple wave engine (client/src/lib/waveEngine.ts)\<close>

text \<open>
  The earlier wedge model.  Its \<open>PhoneticType\<close> is the same four-valued type; its record
  fields are prefixed \<open>w_\<close> (\<open>Wave\<close>), \<open>wp_\<close> (\<open>WaveParams\<close>) and \<open>we_\<close> (the engine),
  and its methods that share a name with the spectrogram engine's carry the suffix
  \<open>_we\<close>.
\<close>

datatype EnvelopeType = Sustained | Burst | Modulated | Broadband

record WaveParams =
  wp_freq :: real
  wp_amplitude :: real
  wp_decay :: real
  wp_spread :: real
  wp_centerFreq :: real
  wp_duration :: real
  wp_frequencyBandwidth :: real
  wp_attackTime :: real
  wp_sustainLevel :: real
  wp_modulationRate :: real
  wp_envelopeType :: EnvelopeType

record Wave =
  w_id :: string
  w_birthTime :: real
  w_frequency :: real
  w_amplitude :: real
  w_decay :: real
  w_type :: PhoneticType
  w_centerAngle :: real
  w_spread :: real

record WaveEngine =
  we_waves :: "Wave list"
  we_time :: real
  we_waveId :: nat

text \<open>
  The engine's own \<open>params\<close>.  Its \<open>maxRadius\<close> is \<open>10\<close> like the coordinate
  transform's, so that constant is used for it.
\<close>

definition arcSpan :: real where
  "arcSpan = pi / 3"

definition waveSpeed :: real where
  "waveSpeed = 0.08"

definition minFreq :: real where
  "minFreq = 100"

definition maxFreq :: real where
  "maxFreq = 6000"

fun phoneticParams :: "PhoneticType \<Rightarrow> WaveParams" where
  "phoneticParams Vowel =
     \<lparr>wp_freq = 100, wp_amplitude = 0.8, wp_decay = 0.05, wp_spread = 0.2, wp_centerFreq = 0.1,
      wp_duration = 0.9, wp_frequencyBandwidth = 0.1, wp_attackTime = 0.1,
      wp_sustainLevel = 0.9, wp_modulationRate = 0, wp_envelopeType = Sustained\<rparr>"
| "phoneticParams Trill =
     \<lparr>wp_freq = 150, wp_amplitude = 0.7, wp_decay = 0.08, wp_spread = 0.4, wp_centerFreq = 0.3,
      wp_duration = 0.9, wp_frequencyBandwidth = 0.3, wp_attackTime = 0.05,
      wp_sustainLevel = 0.8, wp_modulationRate = 8, wp_envelopeType = Modulated\<rparr>"
| "phoneticParams Fricative =
     \<lparr>wp_freq = 3000, wp_amplitude = 0.3, wp_decay = 0.04, wp_spread = 0.9, wp_centerFreq = 0.6,
      wp_duration = 0.95, wp_frequencyBandwidth = 0.8, wp_attackTime = 0.2,
      wp_sustainLevel = 0.6, wp_modulationRate = 0, wp_envelopeType = Broadband\<rparr>"
| "phoneticParams Plosive =
     \<lparr>wp_freq = 1000, wp_amplitude = 1.5, wp_decay = 0.4, wp_spread = 0.7, wp_centerFreq = 0.5,
      wp_duration = 0.2, wp_frequencyBandwidth = 0.6, wp_attackTime = 0.02,
      wp_sustainLevel = 0.1, wp_modulationRate = 0, wp_envelopeType = Burst\<rparr>"

declare phoneticParams.simps [simp del]

definition initialWaveEngine :: WaveEngine where
  "initialWaveEngine = \<lparr>we_waves = [], we_time = 0, we_waveId = 0\<rparr>"

definition getWaveRadius :: "WaveEngine \<Rightarrow> Wave \<Rightarrow> real" where
  "getWaveRadius s wave = (let age = we_time s - w_birthTime wave in age * waveSpeed)"

text \<open>\<open>Math.log\<close> is the natural logarithm.\<close>

definition frequencyToAngle :: "real \<Rightarrow> real" where
  "frequencyToAngle frequency =
     (let logFreq = ln frequency; logMin = ln minFreq; logMax = ln maxFreq;
          normalized = (logFreq - logMin) / (logMax - logMin)
      in (normalized - 0.5) * arcSpan)"

definition generateWave_we :: "PhoneticType \<Rightarrow> WaveEngine \<Rightarrow> WaveEngine" where
  "generateWave_we phoneticType s =
     (let params = phoneticParams phoneticType;
          centerAngle = frequencyToAngle (wp_centerFreq params)
      in s\<lparr>we_waves := we_waves s @
               [\<lparr>w_id = ''wave_'' @ string_of_nat (we_waveId s),
                 w_birthTime = we_time s,
                 w_frequency = wp_freq params,
                 w_amplitude = wp_amplitude params,
                 w_decay = wp_decay params,
                 w_type = phoneticType,
                 w_centerAngle = centerAngle,
                 w_spread = wp_spread params * wp_frequencyBandwidth params\<rparr>],
           we_waveId := we_waveId s + 1\<rparr>)"

definition updateTime_we :: "real \<Rightarrow> WaveEngine \<Rightarrow> WaveEngine" where
  "updateTime_we deltaTime s =
     (let s' = s\<lparr>we_time := we_time s + deltaTime\<rparr>
      in s'\<lparr>we_waves :=
              filter (\<lambda>wave.
                        let params = phoneticParams (w_type wave);
                            age = we_time s' - w_birthTime wave;
                            maxAge = wp_duration params * 25
                        in age < maxAge \<and> getWaveRadius s' wave < maxRadius)
                (we_waves s')\<rparr>)"

text \<open>
  \<open>calculateEnvelope\<close>: the \<open>switch\<close> on \<open>params.envelopeType\<close>.  The four cases cover
  the type, so the \<open>default\<close> branch is never taken.  The parameter \<open>type\<close> is unused.
\<close>

definition calculateEnvelope :: "PhoneticType \<Rightarrow> real \<Rightarrow> WaveParams \<Rightarrow> real" where
  "calculateEnvelope phoneticType age params =
     (let normalizedAge = age / (wp_duration params * 25)
      in case wp_envelopeType params of
           Sustained \<Rightarrow>
             if normalizedAge < wp_attackTime params
             then wp_amplitude params * (normalizedAge / wp_attackTime params)
             else if normalizedAge < 0.8
             then wp_amplitude params * wp_sustainLevel params
             else (let decayFactor = (1 - normalizedAge) / 0.2
                   in wp_amplitude params * wp_sustainLevel params * decayFactor)
         | Modulated \<Rightarrow>
             (let baseAmplitude = wp_amplitude params * exp (- normalizedAge * wp_decay params);
                  modulation = 1 + 0.5 * sin (2 * pi * wp_modulationRate params * age)
              in baseAmplitude * modulation)
         | Burst \<Rightarrow>
             if normalizedAge < wp_attackTime params
             then wp_amplitude params * (normalizedAge / wp_attackTime params)
             else (let decayFactor = exp (- normalizedAge * wp_decay params * 10)
                   in wp_amplitude params * wp_sustainLevel params * decayFactor)
         | Broadband \<Rightarrow>
             (let sustainedAmplitude = wp_amplitude params * wp_sustainLevel params;
                  slowDecay = exp (- normalizedAge * wp_decay params * 0.5)
              in sustainedAmplitude * slowDecay))"

text \<open>
  The body of \<open>waves.forEach\<close> in \<open>calculateHeightAtPosition\<close>: what one wave adds to
  \<open>totalHeight\<close>.
\<close>

definition addWaveHeight :: "WaveEngine \<Rightarrow> real \<Rightarrow> real \<Rightarrow> Wave \<Rightarrow> real \<Rightarrow> real" where
  "addWaveHeight s frequency time wave totalHeight =
     (let waveRadius = getWaveRadius s wave;
          distanceFromWave = \<bar>time * maxRadius - waveRadius\<bar>
      in if distanceFromWave < 2 then
           (let leftHalfFreq = (if frequency < 0.5 then (0.5 - frequency) * 2 else 0);
                rightHalfFreq = (if frequency \<ge> 0.5 then (frequency - 0.5) * 2 else 0);
                activeFreq = max leftHalfFreq rightHalfFreq;
                angle = activeFreq * (arcSpan / 2);
                angleDiff = \<bar>angle - \<bar>w_centerAngle wave\<bar>\<bar>
            in if angleDiff \<le> w_spread wave then
                 (let age = we_time s - w_birthTime wave;
                      params = phoneticParams (w_type wave);
                      envelopeAmplitude = calculateEnvelope (w_type wave) age params;
                      angularFactor = cos (angleDiff / w_spread wave * pi / 2);
                      radialFactor = exp (- distanceFromWave * 0.8);
                      frequencyFactor = sin (w_frequency wave / 100 * distanceFromWave * pi)
                  in totalHeight + envelopeAmplitude * angularFactor * radialFactor * frequencyFactor)
               else totalHeight)
         else totalHeight)"

definition calculateHeightAtPosition :: "WaveEngine \<Rightarrow> real \<Rightarrow> real \<Rightarrow> real" where
  "calculateHeightAtPosition s frequency time =
     (if frequency < 0 \<or> frequency > 1 \<or> time < 0 \<or> time > 1 then 0
      else fold (addWaveHeight s frequency time) (we_waves s) 0)"

definition getActiveWaveCount_we :: "WaveEngine \<Rightarrow> nat" where
  "getActiveWaveCount_we s = length (we_waves s)"

definition reset_we :: "WaveEngine \<Rightarrow> WaveEngine" where
  "reset_we s = s\<lparr>we_waves := [], we_time := 0, we_waveId := 0\<rparr>"

section \<open>Auxiliary notions for the statements\<close>

text \<open>
  The weight one centre frequency gives to bin \<open>j\<close>: the Gaussian inside the window of
  the inner loop of \<open>addPeak\<close>, nothing outside it.
\<close>

definition peakShape :: "PhoneticProfile \<Rightarrow> real \<Rightarrow> nat \<Rightarrow> real" where
  "peakShape profile centerFreq j =
     (let binIndex = frequencyToBinIndex centerFreq;
          bandwidthBins = \<lfloor>pp_bandwidth profile / 80\<rfloor>
      in if nat (max 0 (binIndex - bandwidthBins)) \<le> j \<and>
            j < nat (min (int frequencyBins) (binIndex + bandwidthBins))
         then gaussian (int j) binIndex bandwidthBins else 0)"

definition shapeSum :: "PhoneticProfile \<Rightarrow> nat \<Rightarrow> real" where
  "shapeSum profile j = (\<Sum>c \<leftarrow> pp_peakFrequencies profile. peakShape profile c j)"

text \<open>
  The envelope as the specification words it, to compare with \<open>envelope\<close>: a linear
  ramp from \<open>0\<close> to \<open>1\<close> during the attack window, the constant sustain level in the
  middle, and a linear ramp from the sustain level down to \<open>0\<close> during the trailing decay
  window.
\<close>

definition specEnvelope :: "real \<Rightarrow> PhoneticProfile \<Rightarrow> real" where
  "specEnvelope timeIndex profile =
     (if timeIndex < pp_attackTime profile then timeIndex / pp_attackTime profile
      else if timeIndex > pp_duration profile - pp_decayTime profile then
        pp_sustainLevel profile *
          (1 - (timeIndex - (pp_duration profile - pp_decayTime profile)) / pp_decayTime profile)
      else pp_sustainLevel profile)"

text \<open>
  What holds of every wave of an engine whose clock reads \<open>now\<close>, when the clock has never
  been moved backwards.
\<close>

definition waveOk :: "real \<Rightarrow> PolarWave \<Rightarrow> bool" where
  "waveOk now w \<longleftrightarrow>
     pw_isActive w \<and> 0 \<le> pw_currentTimeIndex w \<and> pw_currentTimeIndex w < pw_maxTimeIndex w
     \<and> pw_birthTime w \<le> now"

text \<open>
  An engine value used to tell sampling at a clamped point from the bounds check: one
  fricative wave, fifty seconds old, centred on the edge of the arc.
\<close>

definition probeEngine :: WaveEngine where
  "probeEngine =
     \<lparr>we_waves = [\<lparr>w_id = ''wave_0'', w_birthTime = 0, w_frequency = 50, w_amplitude = 0.3,
                     w_decay = 0.04, w_type = Fricative, w_centerAngle = pi / 6, w_spread = 1\<rparr>],
      we_time = 50, we_waveId = 1\<rparr>"

text \<open>
  Names for three subterms of \<open>logicalToDisplay\<close>: the half arc \<open>arcSpan / 2\<close>, the
  width \<open>currentWidth\<close> at time \<open>t\<close>, and the normalised frequency with the sign of its
  half.
\<close>

definition halfArc :: real where
  "halfArc = fdiv arcSpanD 2"

definition widthAt :: "real \<Rightarrow> real \<Rightarrow> real" where
  "widthAt tanHalfArc t = fadd mouthWidth (fmul (fmul t maxRadius) tanHalfArc)"

definition signedFreq :: "real \<Rightarrow> real" where
  "signedFreq f = (if f < 0.5 then - fmul (fsub 0.5 f) 2 else fmul (fsub f 0.5) 2)"

text \<open>A bound on the rounding error of one operation whose exact result is at most \<open>16\<close>.\<close>

definition eps :: real where
  "eps = 1 / 2 ^ 49"

section \<open>Rounding to a double\<close>

lemma round_even_err: "\<bar>of_int (round_even y) - y\<bar> \<le> 1 / 2"
proof -
  have "of_int \<lfloor>y\<rfloor> \<le> y" "y < of_int \<lfloor>y\<rfloor> + 1" by linarith+
  then show ?thesis unfolding round_even_def Let_def by (auto simp: abs_le_iff) 
qed

lemma round_even_of_int: "round_even (of_int n) = n"
  by (simp add: round_even_def)

lemma round_even_nonneg: "0 \<le> y \<Longrightarrow> 0 \<le> round_even y"
  by (auto simp: round_even_def Let_def)

lemma round_even_nonpos:
  assumes "y \<le> 0"
  shows "round_even y \<le> 0"
proof (cases "y = 0")
  case True
  then show ?thesis by (simp add: round_even_def)
next
  case False
  with assms have "y < 0" by simp
  then have "\<lfloor>y\<rfloor> \<le> - 1" by (simp add: floor_le_iff)
  then show ?thesis by (auto simp: round_even_def Let_def)
qed

lemma fl_0 [simp]: "fl 0 = 0"
  by (simp add: fl_def)

lemma fl_nonneg: "0 \<le> x \<Longrightarrow> 0 \<le> fl x"
  by (auto simp: fl_def Let_def intro!: mult_nonneg_nonneg round_even_nonneg)

lemma fl_nonpos: "x \<le> 0 \<Longrightarrow> fl x \<le> 0"
  by (auto simp: fl_def Let_def divide_le_0_iff
      intro!: mult_nonpos_nonneg round_even_nonpos)

lemma fl_quantum:
  assumes "x \<noteq> 0"
  shows "\<bar>fl x - x\<bar> \<le> 2 powi (max \<lfloor>log 2 \<bar>x\<bar>\<rfloor> (- 1022) - 52) / 2"
proof -
  define q :: real where "q = 2 powi (max \<lfloor>log 2 \<bar>x\<bar>\<rfloor> (- 1022) - 52)"
  have q: "0 < q" by (simp add: q_def)
  have "fl x - x = (of_int (round_even (x / q)) - x / q) * q"
    using assms q by (simp add: fl_def Let_def q_def [symmetric] algebra_simps)
  then have "\<bar>fl x - x\<bar> = \<bar>of_int (round_even (x / q)) - x / q\<bar> * q"
    using q by (simp add: abs_mult)
  also have "\<dots> \<le> 1 / 2 * q"
    using round_even_err [of "x / q"] q by (intro mult_right_mono) simp_all
  finally show ?thesis by (simp add: q_def)
qed

lemma two_powr_of_int: "(2::real) powr of_int k = 2 powi k"
  by (rule powr_real_of_int') simp_all

lemma log2_powi: "log 2 (2 powi k) = of_int k"
  by (simp add: two_powr_of_int [symmetric])

lemma floor_log2_le:
  assumes "x \<noteq> 0" and "\<bar>x\<bar> \<le> 2 powi k"
  shows "\<lfloor>log 2 \<bar>x\<bar>\<rfloor> \<le> k"
proof -
  have "log 2 \<bar>x\<bar> \<le> log 2 (2 powi k)"
    using assms by (subst log_le_cancel_iff) simp_all
  also have "\<dots> = of_int k"
    by (rule log2_powi)
  finally show ?thesis by (simp add: floor_le_iff)
qed

lemma fl_close:
  assumes "\<bar>x\<bar> \<le> 16"
  shows "\<bar>fl x - x\<bar> \<le> 1 / 2 ^ 49"
proof (cases "x = 0")
  case True
  then show ?thesis by simp
next
  case False
  have "\<bar>x\<bar> \<le> 2 powi 4" using assms by simp
  with False have "\<lfloor>log 2 \<bar>x\<bar>\<rfloor> \<le> 4" by (rule floor_log2_le)
  then have "max \<lfloor>log 2 \<bar>x\<bar>\<rfloor> (- 1022) - 52 \<le> - 48" by simp
  then have "(2::real) powi (max \<lfloor>log 2 \<bar>x\<bar>\<rfloor> (- 1022) - 52) \<le> 2 powi (- 48)"
    by (intro power_int_increasing) simp_all
  with fl_quantum [OF False] have "\<bar>fl x - x\<bar> \<le> 2 powi (- 48) / 2" by linarith
  also have "\<dots> = 1 / 2 ^ 49" by (simp add: power_int_minus field_simps)
  finally show ?thesis .
qed


lemma floor_log2_eq:
  assumes "2 powi e \<le> \<bar>x\<bar>" and "\<bar>x\<bar> < 2 powi (e + 1)"
  shows "\<lfloor>log 2 \<bar>x\<bar>\<rfloor> = e"
proof -
  have pos: "0 < \<bar>x\<bar>" using assms(1) by (smt (verit) zero_less_power_int)
  have "2 powr of_int e \<le> \<bar>x\<bar>" "\<bar>x\<bar> < 2 powr (of_int e + 1)"
    using assms two_powr_of_int [of e] two_powr_of_int [of "e + 1"] by simp_all
  then show ?thesis using pos by (subst floor_log_eq_powr_iff) simp_all
qed

lemma fl_eval:
  assumes "- 1022 \<le> e" and "2 powi e \<le> \<bar>x\<bar>" and "\<bar>x\<bar> < 2 powi (e + 1)"
  shows "fl x = of_int (round_even (x / 2 powi (e - 52))) * 2 powi (e - 52)"
proof -
  have "x \<noteq> 0" using assms(2) by (smt (verit) zero_less_power_int abs_zero)
  moreover have "max \<lfloor>log 2 \<bar>x\<bar>\<rfloor> (- 1022) = e"
    using floor_log2_eq [OF assms(2,3)] assms(1) by simp
  ultimately show ?thesis by (simp add: fl_def Let_def)
qed


lemma fl_exact:
  assumes x: "x = of_int m * 2 powi k" and m: "\<bar>m\<bar> < 2 ^ 53" and k: "- 1074 \<le> k"
  shows "fl x = x"
proof (cases "x = 0")
  case True
  then show ?thesis by simp
next
  case False
  define e where "e = max \<lfloor>log 2 \<bar>x\<bar>\<rfloor> (- 1022)"
  have "\<bar>x\<bar> = of_int \<bar>m\<bar> * 2 powi k" unfolding x by (simp add: abs_mult)
  also have "\<dots> < 2 ^ 53 * 2 powi k"
  proof (rule mult_strict_right_mono)
    have "(of_int \<bar>m\<bar> :: real) < of_int (2 ^ 53)" using m by (simp only: of_int_less_iff)
    then show "(of_int \<bar>m\<bar> :: real) < 2 ^ 53" by simp
  qed simp
  also have "\<dots> = 2 powi (53 + k)" by (simp add: power_int_add)
  finally have "log 2 \<bar>x\<bar> < log 2 (2 powi (53 + k))"
    using False by (subst log_less_cancel_iff) simp_all
  then have "log 2 \<bar>x\<bar> < of_int (53 + k)" by (simp only: log2_powi)
  then have "\<lfloor>log 2 \<bar>x\<bar>\<rfloor> < 53 + k" by (simp add: floor_less_iff)
  then have j: "0 \<le> k - (e - 52)" using k by (simp add: e_def)
  have "x / 2 powi (e - 52) = of_int m * 2 powi (k - (e - 52))"
    unfolding x by (simp add: power_int_diff)
  also have "2 powi (k - (e - 52)) = (2::real) ^ nat (k - (e - 52))"
    using j by (simp add: power_int_def)
  also have "of_int m * (2::real) ^ nat (k - (e - 52)) = of_int (m * 2 ^ nat (k - (e - 52)))"
    by simp
  finally have "of_int (round_even (x / 2 powi (e - 52))) = x / 2 powi (e - 52)"
    by (simp only: round_even_of_int)
  then show ?thesis using False by (simp add: fl_def Let_def e_def [symmetric])
qed

section \<open>Properties of the coordinate transform\<close>

lemma arcSpanD_value: "arcSpanD = 4716158501352293 / 2 ^ 52"
  unfolding arcSpanD_def fdiv_def Math_PI_def
  by (subst fl_eval [where e = 0]) (simp_all add: round_even_def power_int_minus)

lemma halfArc_value: "halfArc = 4716158501352293 / 2 ^ 53"
  unfolding halfArc_def fdiv_def arcSpanD_value
  by (rule trans [OF fl_exact [where m = 4716158501352293 and k = "- 53"]])
    (simp_all add: power_int_minus)

lemma mouthWidth_value: "mouthWidth = 5404319552844595 / 2 ^ 54"
  unfolding mouthWidth_def
  by (subst fl_eval [where e = "- 2"]) (simp_all add: round_even_def power_int_minus)


lemma eps_bounds: "0 < eps" "eps \<le> 2 / 1000000000000000"
  by (simp_all add: eps_def)

lemma fl_err: "\<bar>y\<bar> \<le> 16 \<Longrightarrow> \<bar>fl y - y\<bar> \<le> eps"
  unfolding eps_def by (rule fl_close)

lemma mouthWidth_bounds: "29 / 100 \<le> mouthWidth" "mouthWidth \<le> 31 / 100"
  by (simp_all add: mouthWidth_value)

lemma halfArc_bounds: "1 / 2 \<le> halfArc" "halfArc \<le> 53 / 100"
  by (simp_all add: halfArc_value)

lemma div_close:
  fixes a c s e m :: real
  assumes "0 < m" and "m \<le> c" and "\<bar>a - s * c\<bar> \<le> e"
  shows "\<bar>a / c - s\<bar> \<le> e / m"
proof -
  have c: "0 < c" using assms(1,2) by linarith
  then have "a / c - s = (a - s * c) / c" by (simp add: field_simps)
  then have "\<bar>a / c - s\<bar> = \<bar>a - s * c\<bar> / c" using c by (simp add: abs_divide)
  also have "\<dots> \<le> e / c" using assms(3) c by (intro divide_right_mono) simp_all
  also have "\<dots> \<le> e / m"
  proof -
    have "0 \<le> e" using assms(3) by linarith
    then show ?thesis using assms(1,2) by (intro divide_left_mono) simp_all
  qed
  finally show ?thesis .
qed

lemma mul_close:
  fixes c q s e M :: real
  assumes "0 \<le> c" and "c \<le> M" and "\<bar>q - s\<bar> \<le> e"
  shows "\<bar>c * q - c * s\<bar> \<le> M * e"
proof -
  have "c * q - c * s = c * (q - s)" by (simp add: algebra_simps)
  then have "\<bar>c * q - c * s\<bar> = c * \<bar>q - s\<bar>" using assms(1) by (simp add: abs_mult)
  also have "\<dots> \<le> M * e"
    using assms by (intro mult_mono) simp_all
  finally show ?thesis .
qed

lemma radius_bounds:
  assumes "0 \<le> t" and "t \<le> 1"
  shows "0 \<le> fmul t maxRadius" and "fmul t maxRadius \<le> 10 + eps"
    and "\<bar>fmul t maxRadius - 10 * t\<bar> \<le> eps"
proof -
  have b: "\<bar>t * 10\<bar> \<le> 16" using assms by simp
  show "0 \<le> fmul t maxRadius"
    using assms by (simp add: fmul_def maxRadius_def fl_nonneg)
  from fl_err [OF b] show "\<bar>fmul t maxRadius - 10 * t\<bar> \<le> eps"
    by (simp add: fmul_def maxRadius_def mult.commute)
  with assms show "fmul t maxRadius \<le> 10 + eps" by linarith
qed

lemma widthAt_bounds:
  assumes "0 \<le> t" and "t \<le> 1" and "0 \<le> T" and "T \<le> 1"
  shows "1 / 4 \<le> widthAt T t" and "widthAt T t \<le> 11"
proof -
  let ?r = "fmul t maxRadius"
  note r = radius_bounds [OF assms(1,2)]
  note eb = eps_bounds
  note mw = mouthWidth_bounds
  have rT: "0 \<le> ?r * T" "?r * T \<le> 10 + eps"
  proof -
    show "0 \<le> ?r * T" using r(1) assms(3) by simp
    have "?r * T \<le> ?r * 1" using r(1) assms(4) by (intro mult_left_mono) simp_all
    with r(2) show "?r * T \<le> 10 + eps" by simp
  qed
  then have "\<bar>?r * T\<bar> \<le> 16" using eb by linarith
  from fl_err [OF this] have e1: "\<bar>fmul ?r T - ?r * T\<bar> \<le> eps"
    by (simp add: fmul_def)
  have p1: "0 \<le> fmul ?r T" using rT(1) by (simp add: fmul_def fl_nonneg)
  have s: "\<bar>mouthWidth + fmul ?r T\<bar> \<le> 16"
    using e1 rT p1 eb mw by linarith
  from fl_err [OF s] have e2: "\<bar>widthAt T t - (mouthWidth + fmul ?r T)\<bar> \<le> eps"
    by (simp add: widthAt_def fadd_def)
  show "1 / 4 \<le> widthAt T t" using e2 p1 eb mw by linarith
  show "widthAt T t \<le> 11" using e2 e1 rT eb mw by linarith
qed

lemma signedFreq_left: "f < 1 / 2 \<Longrightarrow> signedFreq f = - fmul (fsub (1 / 2) f) 2"
  by (simp add: signedFreq_def)

lemma signedFreq_right: "\<not> f < 1 / 2 \<Longrightarrow> signedFreq f = fmul (fsub f (1 / 2)) 2"
  by (simp add: signedFreq_def)

lemma signedFreq_err:
  assumes "- (1 / 100) \<le> f" and "f \<le> 101 / 100"
  shows "\<bar>signedFreq f - (2 * f - 1)\<bar> \<le> 3 * eps"
proof (cases "f < 1 / 2")
  case True
  note eb = eps_bounds
  have l1: "\<bar>fsub (1 / 2) f - (1 / 2 - f)\<bar> \<le> eps"
    unfolding fsub_def using assms by (intro fl_err) (simp add: abs_le_iff)
  then have "\<bar>fsub (1 / 2) f * 2\<bar> \<le> 16" using assms eb by linarith
  from fl_err [OF this] have l2: "\<bar>fmul (fsub (1 / 2) f) 2 - fsub (1 / 2) f * 2\<bar> \<le> eps"
    by (simp add: fmul_def)
  show ?thesis unfolding signedFreq_left [OF True] using l1 l2 by linarith
next
  case False
  note eb = eps_bounds
  have r1: "\<bar>fsub f (1 / 2) - (f - 1 / 2)\<bar> \<le> eps"
    unfolding fsub_def using assms by (intro fl_err) (simp add: abs_le_iff)
  then have "\<bar>fsub f (1 / 2) * 2\<bar> \<le> 16" using assms eb by linarith
  from fl_err [OF this] have r2: "\<bar>fmul (fsub f (1 / 2)) 2 - fsub f (1 / 2) * 2\<bar> \<le> eps"
    by (simp add: fmul_def)
  show ?thesis unfolding signedFreq_right [OF False] using r1 r2 by linarith
qed

lemma signedFreq_sign:
  shows "f < 1 / 2 \<Longrightarrow> signedFreq f \<le> 0" and "\<not> f < 1 / 2 \<Longrightarrow> 0 \<le> signedFreq f"
proof -
  show "signedFreq f \<le> 0" if "f < 1 / 2"
  proof -
    have "0 \<le> fsub (1 / 2) f" unfolding fsub_def using that by (intro fl_nonneg) simp
    then have "0 \<le> fmul (fsub (1 / 2) f) 2" unfolding fmul_def by (intro fl_nonneg) simp
    then show ?thesis unfolding signedFreq_left [OF that] by simp
  qed
  show "0 \<le> signedFreq f" if "\<not> f < 1 / 2"
  proof -
    have "0 \<le> fsub f (1 / 2)" unfolding fsub_def using that by (intro fl_nonneg) simp
    then have "0 \<le> fmul (fsub f (1 / 2)) 2" unfolding fmul_def by (intro fl_nonneg) simp
    then show ?thesis unfolding signedFreq_right [OF that] by simp
  qed
qed

lemma logicalToDisplay_fields:
  "dc_x (logicalToDisplay T \<lparr>lc_frequency = f, lc_time = t\<rparr>)
     = fmul (widthAt T t) (fdiv (fmul (signedFreq f) halfArc) halfArc)"
  "dc_z (logicalToDisplay T \<lparr>lc_frequency = f, lc_time = t\<rparr>) = fmul t maxRadius"
  by (simp_all add: logicalToDisplay_def Let_def widthAt_def halfArc_def signedFreq_def)

lemma ratio_err:
  assumes "- (1 / 100) \<le> f" and "f \<le> 101 / 100"
  shows "\<bar>fdiv (fmul (signedFreq f) halfArc) halfArc - (2 * f - 1)\<bar> \<le> 6 * eps"
    and "f < 1 / 2 \<Longrightarrow> fdiv (fmul (signedFreq f) halfArc) halfArc \<le> 0"
    and "\<not> f < 1 / 2 \<Longrightarrow> 0 \<le> fdiv (fmul (signedFreq f) halfArc) halfArc"
proof -
  note eb = eps_bounds
  note hb = halfArc_bounds
  let ?s = "signedFreq f"
  let ?a = "fmul ?s halfArc"
  note s = signedFreq_err [OF assms]
  have sb: "\<bar>?s\<bar> \<le> 2" using s assms eb by linarith
  have "\<bar>?s * halfArc\<bar> \<le> 2 * 1"
    unfolding abs_mult using sb hb by (intro mult_mono) simp_all
  then have "\<bar>?s * halfArc\<bar> \<le> 16" by simp
  from fl_err [OF this] have a: "\<bar>?a - ?s * halfArc\<bar> \<le> eps" by (simp add: fmul_def)
  have "\<bar>?a / halfArc - ?s\<bar> \<le> eps / (1 / 2)"
    by (rule div_close [OF _ hb(1) a]) simp
  then have d: "\<bar>?a / halfArc - ?s\<bar> \<le> 2 * eps" by simp
  then have "\<bar>?a / halfArc\<bar> \<le> 16" using sb eb by linarith
  from fl_err [OF this] have q: "\<bar>fdiv ?a halfArc - ?a / halfArc\<bar> \<le> eps"
    by (simp add: fdiv_def)
  show "\<bar>fdiv ?a halfArc - (2 * f - 1)\<bar> \<le> 6 * eps"
    using q d s by linarith
  have hp: "0 < halfArc" using hb by linarith
  show "fdiv ?a halfArc \<le> 0" if "f < 1 / 2"
  proof -
    have "?s \<le> 0" using signedFreq_sign(1) [OF that] .
    then have "?s * halfArc \<le> 0" using hp by (simp add: mult_le_0_iff)
    then have "?a \<le> 0" unfolding fmul_def by (rule fl_nonpos)
    then have "?a / halfArc \<le> 0" using hp by (simp add: divide_le_0_iff)
    then show ?thesis unfolding fdiv_def by (rule fl_nonpos)
  qed
  show "0 \<le> fdiv ?a halfArc" if "\<not> f < 1 / 2"
  proof -
    have "0 \<le> ?s" using signedFreq_sign(2) [OF that] .
    then have "0 \<le> ?s * halfArc" using hp by simp
    then have "0 \<le> ?a" unfolding fmul_def by (rule fl_nonneg)
    then have "0 \<le> ?a / halfArc" using hp by simp
    then show ?thesis unfolding fdiv_def by (rule fl_nonneg)
  qed
qed

lemma x_err:
  assumes "- (1 / 100) \<le> f" and "f \<le> 101 / 100"
    and "0 \<le> t" and "t \<le> 1" and "0 \<le> T" and "T \<le> 1"
  shows "\<bar>dc_x (logicalToDisplay T \<lparr>lc_frequency = f, lc_time = t\<rparr>)
            - widthAt T t * (2 * f - 1)\<bar> \<le> 67 * eps"
    and "f < 1 / 2 \<Longrightarrow> dc_x (logicalToDisplay T \<lparr>lc_frequency = f, lc_time = t\<rparr>) \<le> 0"
    and "\<not> f < 1 / 2 \<Longrightarrow> 0 \<le> dc_x (logicalToDisplay T \<lparr>lc_frequency = f, lc_time = t\<rparr>)"
proof -
  note eb = eps_bounds
  let ?q = "fdiv (fmul (signedFreq f) halfArc) halfArc"
  let ?w = "widthAt T t"
  note w = widthAt_bounds [OF assms(3-6)]
  note q = ratio_err [OF assms(1,2)]
  have w0: "0 \<le> ?w" using w(1) by linarith
  have m: "\<bar>?w * ?q - ?w * (2 * f - 1)\<bar> \<le> 11 * (6 * eps)"
    using w0 w(2) q(1) by (rule mul_close)
  have qb: "\<bar>?q\<bar> \<le> 21 / 20" using q(1) assms(1,2) eb by linarith
  have "\<bar>?w * ?q\<bar> \<le> 11 * (21 / 20)"
    unfolding abs_mult using w0 w(2) qb by (intro mult_mono) simp_all
  then have "\<bar>?w * ?q\<bar> \<le> 16" by simp
  from fl_err [OF this] have x: "\<bar>fmul ?w ?q - ?w * ?q\<bar> \<le> eps" by (simp add: fmul_def)
  show "\<bar>dc_x (logicalToDisplay T \<lparr>lc_frequency = f, lc_time = t\<rparr>)
            - widthAt T t * (2 * f - 1)\<bar> \<le> 67 * eps"
    unfolding logicalToDisplay_fields using x m by linarith
  show "dc_x (logicalToDisplay T \<lparr>lc_frequency = f, lc_time = t\<rparr>) \<le> 0" if "f < 1 / 2"
  proof -
    have "?w * ?q \<le> 0" using w0 q(2) [OF that] by (simp add: mult_le_0_iff)
    then show ?thesis unfolding logicalToDisplay_fields fmul_def by (rule fl_nonpos)
  qed
  show "0 \<le> dc_x (logicalToDisplay T \<lparr>lc_frequency = f, lc_time = t\<rparr>)" if "\<not> f < 1 / 2"
  proof -
    have "0 \<le> ?w * ?q" using w0 q(3) [OF that] by simp
    then show ?thesis unfolding logicalToDisplay_fields fmul_def by (rule fl_nonneg)
  qed
qed


text \<open>
  Claim C5, as amended.  For every \<open>f\<close> and \<open>t\<close> in \<open>[0, 1]\<close>, with the mirrored
  frequency \<open>1 - f\<close> formed in double arithmetic and a value of \<open>Math.tan(arcSpan / 2)\<close>
  between \<open>0\<close> and \<open>1\<close>: the two display points have exactly equal \<open>z\<close>, and their
  \<open>x\<close> are negations of each other up to rounding, \<open>|x + x'| \<le> 1e-12\<close>.
\<close>

theorem C5_mirror:
  assumes "0 \<le> f" and "f \<le> 1" and "0 \<le> t" and "t \<le> 1"
    and "0 \<le> tanHalfArc" and "tanHalfArc \<le> 1"
  shows "dc_z (logicalToDisplay tanHalfArc \<lparr>lc_frequency = f, lc_time = t\<rparr>)
           = dc_z (logicalToDisplay tanHalfArc \<lparr>lc_frequency = fsub 1 f, lc_time = t\<rparr>)
       \<and> \<bar>dc_x (logicalToDisplay tanHalfArc \<lparr>lc_frequency = f, lc_time = t\<rparr>)
            + dc_x (logicalToDisplay tanHalfArc \<lparr>lc_frequency = fsub 1 f, lc_time = t\<rparr>)\<bar>
           \<le> 1 / 10 ^ 12"
proof -
  note eb = eps_bounds
  let ?g = "fsub 1 f"
  let ?w = "widthAt tanHalfArc t"
  have g: "\<bar>?g - (1 - f)\<bar> \<le> eps"
    unfolding fsub_def using assms(1,2) by (intro fl_err) (simp add: abs_le_iff)
  then have gb: "- (1 / 100) \<le> ?g" "?g \<le> 101 / 100" using assms(1,2) eb by linarith+
  have fb: "- (1 / 100) \<le> f" "f \<le> 101 / 100" using assms(1,2) by linarith+
  note w = widthAt_bounds [OF assms(3-6)]
  have xf: "\<bar>dc_x (logicalToDisplay tanHalfArc \<lparr>lc_frequency = f, lc_time = t\<rparr>)
      - ?w * (2 * f - 1)\<bar> \<le> 67 * eps"
    using fb assms(3-6) by (rule x_err(1))
  have xg: "\<bar>dc_x (logicalToDisplay tanHalfArc \<lparr>lc_frequency = ?g, lc_time = t\<rparr>)
      - ?w * (2 * ?g - 1)\<bar> \<le> 67 * eps"
    using gb assms(3-6) by (rule x_err(1))
  have "\<bar>(2 * ?g - 1) - (1 - 2 * f)\<bar> \<le> 2 * eps" using g by linarith
  then have "\<bar>?w * (2 * ?g - 1) - ?w * (1 - 2 * f)\<bar> \<le> 11 * (2 * eps)"
    using w by (intro mul_close) simp_all
  moreover have "?w * (1 - 2 * f) = - (?w * (2 * f - 1))" by (simp add: algebra_simps)
  ultimately have m: "\<bar>?w * (2 * ?g - 1) + ?w * (2 * f - 1)\<bar> \<le> 22 * eps" by simp
  have "\<bar>dc_x (logicalToDisplay tanHalfArc \<lparr>lc_frequency = f, lc_time = t\<rparr>)
            + dc_x (logicalToDisplay tanHalfArc \<lparr>lc_frequency = ?g, lc_time = t\<rparr>)\<bar>
      \<le> 156 * eps"
    using xf xg m by linarith
  then have "\<bar>dc_x (logicalToDisplay tanHalfArc \<lparr>lc_frequency = f, lc_time = t\<rparr>)
            + dc_x (logicalToDisplay tanHalfArc \<lparr>lc_frequency = ?g, lc_time = t\<rparr>)\<bar>
      \<le> 1 / 1000000000000"
    using eb by linarith
  then show ?thesis by (simp add: logicalToDisplay_fields)
qed

lemma clamp_close:
  fixes a y :: real
  assumes "0 \<le> a" and "a \<le> 1"
  shows "\<bar>max 0 (min 1 y) - a\<bar> \<le> \<bar>y - a\<bar>"
  using assms by (auto simp: max_def min_def abs_le_iff)

lemma time_err:
  assumes "0 \<le> t" and "t \<le> 1"
  shows "\<bar>max 0 (min 1 (fdiv (fmul t maxRadius) maxRadius)) - t\<bar> \<le> 2 * eps"
proof -
  note eb = eps_bounds
  note r = radius_bounds [OF assms]
  define tm where "tm = fdiv (fmul t maxRadius) maxRadius"
  have "\<bar>fmul t maxRadius / maxRadius\<bar> \<le> 16"
    using r(1,2) eb by (simp add: maxRadius_def)
  from fl_err [OF this]
  have "\<bar>tm - fmul t maxRadius / 10\<bar> \<le> eps"
    by (simp add: tm_def fdiv_def maxRadius_def)
  then have "\<bar>tm - t\<bar> \<le> 2 * eps" using r(3) by linarith
  moreover have "\<bar>max 0 (min 1 tm) - t\<bar> \<le> \<bar>tm - t\<bar>"
    using assms by (rule clamp_close)
  ultimately show ?thesis unfolding tm_def by linarith
qed

lemma frequency_err:
  assumes f: "0 \<le> f" "f \<le> 1" and w: "1 / 4 \<le> w" "w \<le> 11"
    and x: "\<bar>x - w * (2 * f - 1)\<bar> \<le> 67 * eps"
    and left: "f < 1 / 2 \<Longrightarrow> x \<le> 0" and right: "\<not> f < 1 / 2 \<Longrightarrow> 0 \<le> x"
  shows "\<bar>max 0 (min 1
            (if x < 0 then fsub 0.5 (fmul (max 0 (min 1 (fdiv \<bar>x\<bar> w))) 0.5)
             else fadd 0.5 (fmul (max 0 (min 1 (fdiv \<bar>x\<bar> w))) 0.5))) - f\<bar>
         \<le> 405 * eps"
proof -
  note eb = eps_bounds
  define a where "a = \<bar>2 * f - 1\<bar>"
  define p where "p = fdiv \<bar>x\<bar> w"
  define n where "n = max 0 (min 1 p)"
  define h where "h = fmul n (1 / 2)"
  have a01: "0 \<le> a" "a \<le> 1" using f unfolding a_def by linarith+
  have "\<bar>\<bar>x\<bar> - \<bar>w * (2 * f - 1)\<bar>\<bar> \<le> \<bar>x - w * (2 * f - 1)\<bar>"
    by (rule abs_triangle_ineq3)
  moreover have "\<bar>w * (2 * f - 1)\<bar> = a * w" using w(1) by (simp add: abs_mult a_def)
  ultimately have "\<bar>\<bar>x\<bar> - a * w\<bar> \<le> 67 * eps" using x by simp
  then have "\<bar>\<bar>x\<bar> / w - a\<bar> \<le> 67 * eps / (1 / 4)"
    using w(1) by (intro div_close) simp_all
  then have d: "\<bar>\<bar>x\<bar> / w - a\<bar> \<le> 268 * eps" by simp
  then have "\<bar>\<bar>x\<bar> / w\<bar> \<le> 16" using a01 eb by linarith
  from fl_err [OF this] have "\<bar>p - \<bar>x\<bar> / w\<bar> \<le> eps" by (simp add: p_def fdiv_def)
  with d have "\<bar>p - a\<bar> \<le> 269 * eps" by linarith
  moreover have "\<bar>n - a\<bar> \<le> \<bar>p - a\<bar>" unfolding n_def using a01 by (rule clamp_close)
  ultimately have n: "\<bar>n - a\<bar> \<le> 269 * eps" by linarith
  have nb: "0 \<le> n" "n \<le> 1" by (simp_all add: n_def)
  have "\<bar>n * (1 / 2)\<bar> \<le> 16" using nb by linarith
  from fl_err [OF this] have h: "\<bar>h - n / 2\<bar> \<le> eps" by (simp add: h_def fmul_def)
  then have hb: "\<bar>1 / 2 - h\<bar> \<le> 16" "\<bar>1 / 2 + h\<bar> \<le> 16"
    using nb eb by linarith+
  from fl_err [OF hb(1)] have sl: "\<bar>fsub (1 / 2) h - (1 / 2 - h)\<bar> \<le> eps"
    by (simp add: fsub_def)
  from fl_err [OF hb(2)] have sr: "\<bar>fadd (1 / 2) h - (1 / 2 + h)\<bar> \<le> eps"
    by (simp add: fadd_def)
  have body: "(if x < 0 then fsub 0.5 (fmul (max 0 (min 1 (fdiv \<bar>x\<bar> w))) 0.5)
             else fadd 0.5 (fmul (max 0 (min 1 (fdiv \<bar>x\<bar> w))) 0.5))
      = (if x < 0 then fsub (1 / 2) h else fadd (1 / 2) h)"
    by (simp add: h_def n_def p_def)
  have "\<bar>(if x < 0 then fsub (1 / 2) h else fadd (1 / 2) h) - f\<bar> \<le> 405 * eps"
  proof (cases "x < 0")
    case True
    then have "f < 1 / 2" using right by fastforce
    then have "a = 1 - 2 * f" unfolding a_def by linarith
    then have "\<bar>fsub (1 / 2) h - f\<bar> \<le> 405 * eps"
      using sl h n eb by linarith
    with True show ?thesis by simp
  next
    case False
    have "\<bar>fadd (1 / 2) h - f\<bar> \<le> 405 * eps"
    proof (cases "f < 1 / 2")
      case True
      with left False have "x = 0" by linarith
      then have "a \<le> 268 * eps" using d a01 by simp
      moreover have "a = 1 - 2 * f" using True unfolding a_def by linarith
      ultimately show ?thesis using sr h n eb a01 by linarith
    next
      case False
      then have "a = 2 * f - 1" unfolding a_def by linarith
      then show ?thesis using sr h n eb by linarith
    qed
    with False show ?thesis by simp
  qed
  moreover have "\<bar>max 0 (min 1 (if x < 0 then fsub (1 / 2) h else fadd (1 / 2) h)) - f\<bar>
      \<le> \<bar>(if x < 0 then fsub (1 / 2) h else fadd (1 / 2) h) - f\<bar>"
    using f by (rule clamp_close)
  ultimately show ?thesis unfolding body by linarith
qed

text \<open>
  Claim C1, as amended.  For every logical coordinate with frequency and time in
  \<open>[0, 1]\<close> (time \<open>0\<close> included) and a value of \<open>Math.tan(arcSpan / 2)\<close> between \<open>0\<close>
  and \<open>1\<close>, \<open>displayToLogical\<close> after \<open>logicalToDisplay\<close> in double arithmetic gives
  frequency and time back within an absolute error of \<open>1e-6\<close>.
\<close>

theorem C1_round_trip:
  assumes "0 \<le> f" and "f \<le> 1" and "0 \<le> t" and "t \<le> 1"
    and "0 \<le> tanHalfArc" and "tanHalfArc \<le> 1"
  shows "\<bar>lc_frequency (displayToLogical tanHalfArc
            (logicalToDisplay tanHalfArc \<lparr>lc_frequency = f, lc_time = t\<rparr>)) - f\<bar> \<le> 1 / 10 ^ 6
       \<and> \<bar>lc_time (displayToLogical tanHalfArc
            (logicalToDisplay tanHalfArc \<lparr>lc_frequency = f, lc_time = t\<rparr>)) - t\<bar> \<le> 1 / 10 ^ 6"
proof -
  note eb = eps_bounds
  let ?d = "logicalToDisplay tanHalfArc \<lparr>lc_frequency = f, lc_time = t\<rparr>"
  let ?w = "widthAt tanHalfArc t"
  note w = widthAt_bounds [OF assms(3-6)]
  have fb: "- (1 / 100) \<le> f" "f \<le> 101 / 100" using assms(1,2) by linarith+
  note x = x_err [OF fb assms(3-6)]
  have wd: "fadd mouthWidth (fmul (dc_z ?d) tanHalfArc) = ?w"
    by (simp add: logicalToDisplay_fields widthAt_def)
  have w0: "?w \<noteq> 0" using w(1) by linarith
  have fr: "lc_frequency (displayToLogical tanHalfArc ?d)
      = max 0 (min 1
            (if dc_x ?d < 0 then fsub 0.5 (fmul (max 0 (min 1 (fdiv \<bar>dc_x ?d\<bar> ?w))) 0.5)
             else fadd 0.5 (fmul (max 0 (min 1 (fdiv \<bar>dc_x ?d\<bar> ?w))) 0.5)))"
    unfolding displayToLogical_def Let_def wd using w0 by simp
  have tm: "lc_time (displayToLogical tanHalfArc ?d)
      = max 0 (min 1 (fdiv (fmul t maxRadius) maxRadius))"
    unfolding displayToLogical_def Let_def wd using w0 by (simp add: logicalToDisplay_fields)
  have "\<bar>lc_frequency (displayToLogical tanHalfArc ?d) - f\<bar> \<le> 405 * eps"
    unfolding fr using assms(1,2) w x by (rule frequency_err)
  moreover have "\<bar>lc_time (displayToLogical tanHalfArc ?d) - t\<bar> \<le> 2 * eps"
    unfolding tm using assms(3,4) by (rule time_err)
  ultimately have "\<bar>lc_frequency (displayToLogical tanHalfArc ?d) - f\<bar> \<le> 1 / 1000000"
    and "\<bar>lc_time (displayToLogical tanHalfArc ?d) - t\<bar> \<le> 1 / 1000000"
    using eb by linarith+
  then show ?thesis by simp
qed


lemma logicalToDisplay_eq:
  "logicalToDisplay T \<lparr>lc_frequency = f, lc_time = t\<rparr>
     = \<lparr>dc_x = fmul (widthAt T t) (fdiv (fmul (signedFreq f) halfArc) halfArc),
        dc_y = 0, dc_z = fmul t maxRadius\<rparr>"
  by (simp add: logicalToDisplay_def Let_def widthAt_def halfArc_def signedFreq_def)

lemma radius_half: "fmul (1 / 2) maxRadius = 5"
  unfolding fmul_def maxRadius_def
  by (subst fl_eval [where e = "2"]) (simp_all add: round_even_def power_int_minus)

lemma fmul5T: "fmul 5 tanHalfArcDouble = 6500386142961635 / 2 ^ 51"
  unfolding fmul_def tanHalfArcDouble_def
  by (subst fl_eval [where e = "1"]) (simp_all add: round_even_def power_int_minus)

lemma widthAt_half: "widthAt tanHalfArcDouble (1 / 2) = 7175926087067209 / 2 ^ 51"
  unfolding widthAt_def radius_half fmul5T mouthWidth_value fadd_def
  by (subst fl_eval [where e = "1"]) (simp_all add: round_even_def power_int_minus)

lemma tiny_sub: "fsub (1 / 2) (1 / 2 ^ 60) = 1 / 2"
  unfolding fsub_def
  by (subst fl_eval [where e = "- 2"]) (simp_all add: round_even_def power_int_minus)

lemma fl_1: "fl 1 = 1"
  by (rule fl_exact [where m = 1 and k = 0]) simp_all

lemma fl_minus_1: "fl (- 1) = - 1"
  by (rule fl_exact [where m = "- 1" and k = 0]) simp_all

lemma fl_half: "fl (1 / 2) = 1 / 2"
  by (rule fl_exact [where m = 1 and k = "- 1"]) (simp_all add: power_int_minus)

lemma signedFreq_tiny: "signedFreq (1 / 2 ^ 60) = - 1"
proof -
  have lt: "(1 / 2 ^ 60 :: real) < 1 / 2" by simp
  show ?thesis unfolding signedFreq_left [OF lt] tiny_sub fmul_def by (simp add: fl_1)
qed

lemma angle_tiny: "fmul (- 1) halfArc = - halfArc"
  unfolding fmul_def halfArc_value
  by (rule trans [OF fl_exact [where m = "- 4716158501352293" and k = "- 53"]])
    (simp_all add: power_int_minus)

lemma ratio_tiny: "fdiv (- halfArc) halfArc = - 1"
  using halfArc_bounds by (simp add: fdiv_def fl_minus_1)

lemma x_tiny: "fmul (7175926087067209 / 2 ^ 51) (- 1) = - (7175926087067209 / 2 ^ 51)"
  unfolding fmul_def
  by (rule trans [OF fl_exact [where m = "- 7175926087067209" and k = "- 51"]])
    (simp_all add: power_int_minus)

lemma logicalToDisplay_tiny:
  "logicalToDisplay tanHalfArcDouble \<lparr>lc_frequency = 1 / 2 ^ 60, lc_time = 1 / 2\<rparr>
     = \<lparr>dc_x = - (7175926087067209 / 2 ^ 51), dc_y = 0, dc_z = 5\<rparr>"
  unfolding logicalToDisplay_eq signedFreq_tiny angle_tiny ratio_tiny widthAt_half x_tiny radius_half
  ..

lemma displayToLogical_tiny:
  "displayToLogical tanHalfArcDouble \<lparr>dc_x = - (7175926087067209 / 2 ^ 51), dc_y = 0, dc_z = 5\<rparr>
     = \<lparr>lc_frequency = 0, lc_time = 1 / 2\<rparr>"
proof -
  have w: "fadd mouthWidth (fmul 5 tanHalfArcDouble) = 7175926087067209 / 2 ^ 51"
    using widthAt_half unfolding widthAt_def radius_half .
  have tm: "fdiv 5 maxRadius = 1 / 2"
    by (simp add: fdiv_def maxRadius_def fl_half)
  have np: "fdiv \<bar>- (7175926087067209 / 2 ^ 51)\<bar> (7175926087067209 / 2 ^ 51) = 1"
    by (simp add: fdiv_def fl_1)
  have h: "fmul 1 (1 / 2) = 1 / 2" by (simp add: fmul_def fl_half)
  have z: "fsub (1 / 2) (1 / 2) = 0" by (simp add: fsub_def)
  show ?thesis
    unfolding displayToLogical_def Let_def DisplayCoordinates.simps w tm np
    by (simp add: h z)
qed

text \<open>
  Claim C1 as stated asks for a relative error of \<open>1e-6\<close>.  The frequency
  \<open>2 ^ -60\<close> at time \<open>0.5\<close> comes back as \<open>0\<close>: the subtraction \<open>0.5 - f\<close> already
  rounds to \<open>0.5\<close>, and every later step is exact.
\<close>

theorem C1_counterexample:
  "\<not> (\<bar>lc_frequency (displayToLogical tanHalfArcDouble
            (logicalToDisplay tanHalfArcDouble \<lparr>lc_frequency = 1 / 2 ^ 60, lc_time = 1 / 2\<rparr>))
          - 1 / 2 ^ 60\<bar> \<le> 1 / 10 ^ 6 * \<bar>1 / 2 ^ 60\<bar>)"
  unfolding logicalToDisplay_tiny displayToLogical_tiny by simp


lemma fl_three_tenths: "fl (3 / 10) = 5404319552844595 / 2 ^ 54"
  using mouthWidth_value unfolding mouthWidth_def .

lemma left_sub: "fsub (1 / 2) (5404319552844595 / 2 ^ 54) = 3602879701896397 / 2 ^ 54"
  unfolding fsub_def
  by (subst fl_eval [where e = "- 3"]) (simp_all add: round_even_def power_int_minus)

lemma left_nf: "fmul (3602879701896397 / 2 ^ 54) 2 = 3602879701896397 / 2 ^ 53"
  unfolding fmul_def
  by (subst fl_eval [where e = "- 2"]) (simp_all add: round_even_def power_int_minus)

lemma left_angle: "fmul (- (3602879701896397 / 2 ^ 53)) halfArc = - (7545853602163669 / 2 ^ 55)"
  unfolding fmul_def halfArc_value
  by (subst fl_eval [where e = "- 3"]) (simp_all add: round_even_def power_int_minus)

lemma left_ratio: "fdiv (- (7545853602163669 / 2 ^ 55)) halfArc = - (3602879701896397 / 2 ^ 53)"
  unfolding fdiv_def halfArc_value
  by (subst fl_eval [where e = "- 2"]) (simp_all add: round_even_def power_int_minus)

lemma left_x: "fmul (7175926087067209 / 2 ^ 51) (- (3602879701896397 / 2 ^ 53)) = - (717592608706721 / 2 ^ 49)"
  unfolding fmul_def
  by (subst fl_eval [where e = "0"]) (simp_all add: round_even_def power_int_minus)

lemma mirror_input: "fsub 1 (5404319552844595 / 2 ^ 54) = 3152519739159347 / 2 ^ 52"
  unfolding fsub_def
  by (subst fl_eval [where e = "- 1"]) (simp_all add: round_even_def power_int_minus)

lemma right_sub: "fsub (3152519739159347 / 2 ^ 52) (1 / 2) = 900719925474099 / 2 ^ 52"
  unfolding fsub_def
  by (subst fl_eval [where e = "- 3"]) (simp_all add: round_even_def power_int_minus)

lemma right_nf: "fmul (900719925474099 / 2 ^ 52) 2 = 900719925474099 / 2 ^ 51"
  unfolding fmul_def
  by (subst fl_eval [where e = "- 2"]) (simp_all add: round_even_def power_int_minus)

lemma right_angle: "fmul (900719925474099 / 2 ^ 51) halfArc = 7545853602163667 / 2 ^ 55"
  unfolding fmul_def halfArc_value
  by (subst fl_eval [where e = "- 3"]) (simp_all add: round_even_def power_int_minus)

lemma right_ratio: "fdiv (7545853602163667 / 2 ^ 55) halfArc = 900719925474099 / 2 ^ 51"
  unfolding fdiv_def halfArc_value
  by (subst fl_eval [where e = "- 2"]) (simp_all add: round_even_def power_int_minus)

lemma right_x: "fmul (7175926087067209 / 2 ^ 51) (900719925474099 / 2 ^ 51) = 2870370434826883 / 2 ^ 51"
  unfolding fmul_def
  by (subst fl_eval [where e = "0"]) (simp_all add: round_even_def power_int_minus)

lemma signedFreq_left_example: "signedFreq (5404319552844595 / 2 ^ 54) = - (3602879701896397 / 2 ^ 53)"
proof -
  have lt: "(5404319552844595 / 2 ^ 54 :: real) < 1 / 2" by simp
  show ?thesis unfolding signedFreq_left [OF lt] left_sub left_nf ..
qed

lemma signedFreq_right_example: "signedFreq (3152519739159347 / 2 ^ 52) = 900719925474099 / 2 ^ 51"
proof -
  have ge: "\<not> (3152519739159347 / 2 ^ 52 :: real) < 1 / 2" by simp
  show ?thesis unfolding signedFreq_right [OF ge] right_sub right_nf ..
qed

lemma x_left_example:
  "dc_x (logicalToDisplay tanHalfArcDouble \<lparr>lc_frequency = fl (3 / 10), lc_time = 1 / 2\<rparr>)
     = - (717592608706721 / 2 ^ 49)"
  unfolding fl_three_tenths logicalToDisplay_fields signedFreq_left_example left_angle left_ratio
    widthAt_half left_x ..

lemma x_right_example:
  "dc_x (logicalToDisplay tanHalfArcDouble
          \<lparr>lc_frequency = fsub 1 (fl (3 / 10)), lc_time = 1 / 2\<rparr>)
     = 2870370434826883 / 2 ^ 51"
  unfolding fl_three_tenths mirror_input logicalToDisplay_fields signedFreq_right_example
    right_angle right_ratio widthAt_half right_x ..

text \<open>
  Claim C5 as stated asks for equal \<open>x\<close> up to sign.  At frequency \<open>0.3\<close> and time
  \<open>0.5\<close> the source computes \<open>x = -1.2747005383792516\<close>, and at the mirrored frequency
  \<open>1 - 0.3\<close> it computes \<open>x = 1.2747005383792511\<close>.
\<close>

theorem C5_counterexample:
  "dc_x (logicalToDisplay tanHalfArcDouble \<lparr>lc_frequency = fl (3 / 10), lc_time = 1 / 2\<rparr>)
     \<noteq> - dc_x (logicalToDisplay tanHalfArcDouble
              \<lparr>lc_frequency = fsub 1 (fl (3 / 10)), lc_time = 1 / 2\<rparr>)"
  unfolding x_left_example x_right_example by simp

text \<open>The hypotheses of C1 hold at frequency \<open>0.3\<close>, time \<open>0.5\<close>, and at the origin.\<close>

theorem C1_round_trip_witness:
  "\<bar>lc_frequency (displayToLogical tanHalfArcDouble
       (logicalToDisplay tanHalfArcDouble \<lparr>lc_frequency = fl (3 / 10), lc_time = 1 / 2\<rparr>))
     - fl (3 / 10)\<bar> \<le> 1 / 10 ^ 6
   \<and> \<bar>lc_time (displayToLogical tanHalfArcDouble
       (logicalToDisplay tanHalfArcDouble \<lparr>lc_frequency = 1, lc_time = 0\<rparr>)) - 0\<bar>
     \<le> 1 / 10 ^ 6"
proof -
  have h: "(0::real) \<le> fl (3 / 10)" "fl (3 / 10) \<le> 1" "(0::real) \<le> 1 / 2" "(1 / 2 :: real) \<le> 1"
    "0 \<le> tanHalfArcDouble" "tanHalfArcDouble \<le> 1"
    by (simp_all add: fl_three_tenths tanHalfArcDouble_def)
  have k: "(0::real) \<le> 1" "(1::real) \<le> 1" "(0::real) \<le> 0" "(0::real) \<le> 1"
    by simp_all
  show ?thesis
    using C1_round_trip [OF h] C1_round_trip [OF k h(5,6)] by simp
qed

text \<open>The hypotheses of C5 hold at frequency \<open>0.3\<close>, time \<open>0.5\<close>.\<close>

theorem C5_mirror_witness:
  "dc_z (logicalToDisplay tanHalfArcDouble \<lparr>lc_frequency = fl (3 / 10), lc_time = 1 / 2\<rparr>)
     = dc_z (logicalToDisplay tanHalfArcDouble
          \<lparr>lc_frequency = fsub 1 (fl (3 / 10)), lc_time = 1 / 2\<rparr>)
   \<and> \<bar>dc_x (logicalToDisplay tanHalfArcDouble \<lparr>lc_frequency = fl (3 / 10), lc_time = 1 / 2\<rparr>)
        + dc_x (logicalToDisplay tanHalfArcDouble
            \<lparr>lc_frequency = fsub 1 (fl (3 / 10)), lc_time = 1 / 2\<rparr>)\<bar>
       \<le> 1 / 10 ^ 12"
proof -
  have h: "(0::real) \<le> fl (3 / 10)" "fl (3 / 10) \<le> 1" "(0::real) \<le> 1 / 2" "(1 / 2 :: real) \<le> 1"
    "0 \<le> tanHalfArcDouble" "tanHalfArcDouble \<le> 1"
    by (simp_all add: fl_three_tenths tanHalfArcDouble_def)
  show ?thesis using C5_mirror [OF h] .
qed

section \<open>The loops of the spectrogram synthesizer, bin by bin\<close>

lemma fold_update_length:
  "length (fold (\<lambda>i bs. bs[i := bs ! i + v i]) is bs) = length bs"
  by (induction "is" arbitrary: bs) simp_all

lemma fold_update_nth:
  assumes "j < length bs"
  shows "fold (\<lambda>i bs. bs[i := bs ! i + v i]) [lo ..< hi] bs ! j
           = bs ! j + (if lo \<le> j \<and> j < hi then v j else (0::real))"
proof (induction hi)
  case 0
  then show ?case by simp
next
  case (Suc hi)
  show ?case
  proof (cases "lo \<le> hi")
    case True
    let ?f = "\<lambda>i bs. bs[i := bs ! i + v i]"
    have len: "j < length (fold ?f [lo ..< hi] bs)"
      using assms by (simp add: fold_update_length)
    have "fold ?f [lo ..< Suc hi] bs = ?f hi (fold ?f [lo ..< hi] bs)"
      using True by simp
    moreover have "?f hi (fold ?f [lo ..< hi] bs) ! j
        = (if j = hi then fold ?f [lo ..< hi] bs ! hi + v hi else fold ?f [lo ..< hi] bs ! j)"
      using len by (simp add: nth_list_update)
    ultimately show ?thesis using Suc True
      by (cases "j = hi") auto
  next
    case False
    then show ?thesis by simp
  qed
qed

lemma addPeak_length: "length (addPeak p env c bins) = length bins"
  by (simp add: addPeak_def Let_def fold_update_length)

lemma addPeak_nth:
  "j < length bins \<Longrightarrow>
     addPeak p env c bins ! j = bins ! j + pp_amplitude p * env * peakShape p c j"
  unfolding addPeak_def peakShape_def Let_def
  by (subst fold_update_nth) simp_all

lemma fold_addPeak_length: "length (fold (addPeak p env) cs bins) = length bins"
  by (induction cs arbitrary: bins) (simp_all add: addPeak_length)

lemma fold_addPeak_nth:
  "j < length bins \<Longrightarrow>
     fold (addPeak p env) cs bins ! j
       = bins ! j + pp_amplitude p * env * (\<Sum>c \<leftarrow> cs. peakShape p c j)"
proof (induction cs arbitrary: bins)
  case Nil
  then show ?case by simp
next
  case (Cons c cs)
  then show ?case
    by (simp add: addPeak_length addPeak_nth algebra_simps)
qed

lemma peakBins_length: "length (peakBins p env) = frequencyBins"
  by (simp add: peakBins_def fold_addPeak_length)

lemma peakBins_nth:
  "j < frequencyBins \<Longrightarrow> peakBins p env ! j = pp_amplitude p * env * shapeSum p j"
  by (simp add: peakBins_def fold_addPeak_nth shapeSum_def)

lemma addNoise_length: "length (addNoise rnd env bins) = length bins"
  by (simp add: addNoise_def fold_update_length)

lemma addNoise_nth:
  "j < length bins \<Longrightarrow> length bins = frequencyBins \<Longrightarrow>
     addNoise rnd env bins ! j = bins ! j + rnd j * 0.1 * env"
  unfolding addNoise_def by (subst fold_update_nth) simp_all

lemma rawFrequencyBins_length: "length (rawFrequencyBins ty t p rnd) = frequencyBins"
  by (simp add: rawFrequencyBins_def Let_def addNoise_length peakBins_length)

lemma rawFrequencyBins_nth:
  "j < frequencyBins \<Longrightarrow>
     rawFrequencyBins ty t p rnd ! j =
       pp_amplitude p * modulatedEnvelope ty t p * shapeSum p j
       + (if ty = Fricative then rnd j * 0.1 * modulatedEnvelope ty t p else 0)"
  by (simp add: rawFrequencyBins_def Let_def addNoise_nth peakBins_length peakBins_nth)

lemma gaussian_pos: "0 < gaussian i b w"
  by (simp add: gaussian_def Let_def)

lemma peakShape_nonneg: "0 \<le> peakShape p c j"
  using gaussian_pos [of "int j"] by (simp add: peakShape_def Let_def less_imp_le)

lemma shapeSum_nonneg: "0 \<le> shapeSum p j"
  unfolding shapeSum_def by (rule sum_list_nonneg) (auto simp: peakShape_nonneg)

section \<open>Normalisation of a frame\<close>

lemma normalizeBins_length: "length (normalizeBins bins) = length bins"
  by (simp add: normalizeBins_def)

lemma normalizeBins_skip: "\<not> (bins \<noteq> [] \<and> 0 < Max (set bins)) \<Longrightarrow> normalizeBins bins = bins"
  by (auto simp: normalizeBins_def)

lemma normalizeBins_range:
  assumes "bins \<noteq> []" and "0 < Max (set bins)" and "b \<in> set (normalizeBins bins)"
  shows "0 \<le> b \<and> b \<le> 1"
proof -
  from assms obtain a where a: "a \<in> set bins" and b: "b = max 0 (a / Max (set bins))"
    by (auto simp: normalizeBins_def)
  have "a \<le> Max (set bins)" using a by simp
  then have "a / Max (set bins) \<le> 1" using assms(2) by (simp add: divide_le_eq)
  then show ?thesis unfolding b by simp
qed

lemma normalizeBins_has_one:
  assumes "bins \<noteq> []" and "0 < Max (set bins)"
  shows "1 \<in> set (normalizeBins bins)"
proof -
  have m: "Max (set bins) \<in> set bins" using assms(1) by (intro Max_in) simp_all
  have "max 0 (Max (set bins) / Max (set bins)) = 1" using assms(2) by simp
  then have "1 \<in> (\<lambda>b. max 0 (b / Max (set bins))) ` set bins"
    using m by (metis image_eqI)
  then show ?thesis using assms by (simp add: normalizeBins_def)
qed

lemma Max_pos_iff:
  assumes "bins \<noteq> []"
  shows "0 < Max (set bins) \<longleftrightarrow> (\<exists>b \<in> set bins. (0::real) < b)"
  using assms by (subst Max_gr_iff) simp_all

lemma envelope_nonneg:
  assumes "0 \<le> pp_sustainLevel p" and "0 \<le> t" and "t \<le> pp_duration p"
  shows "0 \<le> envelope t p"
proof -
  have a: "0 \<le> t / pp_attackTime p" if "t < pp_attackTime p"
    using that assms(2) by simp
  have d: "(t - (pp_duration p - pp_decayTime p)) / pp_decayTime p \<le> 1"
    if "t > pp_duration p - pp_decayTime p"
  proof -
    have "0 < pp_decayTime p" using that assms(3) by linarith
    then show ?thesis using assms(3) by (simp add: divide_le_eq)
  qed
  show ?thesis using a d assms(1) by (simp add: envelope_def Let_def)
qed

lemma modulation_pos: "0 < 0.7 + 0.3 * sin (x::real)"
proof -
  have "- 1 \<le> sin x" by simp
  then show ?thesis by linarith
qed

lemma modulatedEnvelope_nonneg:
  assumes "0 \<le> envelope t p"
  shows "0 \<le> modulatedEnvelope ty t p"
  using assms modulation_pos
  by (simp add: modulatedEnvelope_def Let_def less_imp_le)

lemma rawFrequencyBins_nonneg:
  assumes "0 \<le> pp_amplitude p" and "0 \<le> modulatedEnvelope ty t p"
    and "\<forall>i. 0 \<le> rnd i" and "b \<in> set (rawFrequencyBins ty t p rnd)"
  shows "0 \<le> b"
proof -
  from assms(4) obtain j where j: "j < frequencyBins" and b: "b = rawFrequencyBins ty t p rnd ! j"
    by (auto simp: in_set_conv_nth rawFrequencyBins_length)
  have "0 \<le> pp_amplitude p * modulatedEnvelope ty t p * shapeSum p j"
    using assms(1,2) shapeSum_nonneg by simp
  moreover have "0 \<le> rnd j * 0.1 * modulatedEnvelope ty t p"
    using assms(2,3) by simp
  ultimately show ?thesis unfolding b rawFrequencyBins_nth [OF j]
    by (cases "ty = Fricative") simp_all
qed

lemma rawFrequencyBins_nonempty: "rawFrequencyBins ty t p rnd \<noteq> []"
  using rawFrequencyBins_length [of ty t p rnd] by (auto simp: frequencyBins_def)

lemma vowel_binIndex:
  "frequencyToBinIndex 300 = 2" "frequencyToBinIndex 1200 = 13" "frequencyToBinIndex 2500 = 30"
  by (simp_all add: frequencyToBinIndex_def frequencyBins_def)

lemma vowel_shapeSum_2: "shapeSum (phoneticProfiles Vowel) 2 = 1"
  by (simp add: shapeSum_def peakShape_def Let_def vowel_binIndex frequencyBins_def gaussian_def
      phoneticProfiles.simps)

lemma frame_normalized:
  assumes "0 \<le> pp_amplitude p" and "0 \<le> pp_sustainLevel p"
    and "0 \<le> t" and "t \<le> pp_duration p" and "\<forall>i. 0 \<le> rnd i"
  shows "\<forall>b \<in> set (sd_frequencyBins (generateSpectrogramFrame ty t p rnd)). 0 \<le> b \<and> b \<le> 1"
    and "\<exists>b \<in> set (rawFrequencyBins ty t p rnd). 0 < b
           \<Longrightarrow> 1 \<in> set (sd_frequencyBins (generateSpectrogramFrame ty t p rnd))"
    and "\<forall>b \<in> set (rawFrequencyBins ty t p rnd). b = 0
           \<Longrightarrow> sd_frequencyBins (generateSpectrogramFrame ty t p rnd) = rawFrequencyBins ty t p rnd"
proof -
  let ?raw = "rawFrequencyBins ty t p rnd"
  have out: "sd_frequencyBins (generateSpectrogramFrame ty t p rnd) = normalizeBins ?raw"
    by (simp add: generateSpectrogramFrame_def)
  have ne: "?raw \<noteq> []" by (rule rawFrequencyBins_nonempty)
  have env: "0 \<le> modulatedEnvelope ty t p"
    using assms(2-4) by (intro modulatedEnvelope_nonneg envelope_nonneg)
  have nonneg: "0 \<le> b" if "b \<in> set ?raw" for b
    using assms(1) env assms(5) that by (rule rawFrequencyBins_nonneg)
  have range: "0 \<le> b \<and> b \<le> 1" if b: "b \<in> set (normalizeBins ?raw)" for b
  proof (cases "0 < Max (set ?raw)")
    case True
    show ?thesis by (rule normalizeBins_range [OF ne True b])
  next
    case False
    then have same: "normalizeBins ?raw = ?raw" by (simp add: normalizeBins_skip)
    have "b \<le> Max (set ?raw)" using b unfolding same by simp
    with False have "b \<le> 0" by linarith
    moreover have "0 \<le> b" using b unfolding same by (rule nonneg)
    ultimately show ?thesis by simp
  qed
  then show "\<forall>b \<in> set (sd_frequencyBins (generateSpectrogramFrame ty t p rnd)). 0 \<le> b \<and> b \<le> 1"
    unfolding out by blast
  show "1 \<in> set (sd_frequencyBins (generateSpectrogramFrame ty t p rnd))"
    if "\<exists>b \<in> set ?raw. 0 < b"
    unfolding out using that ne by (intro normalizeBins_has_one) (simp_all add: Max_pos_iff)
  show "sd_frequencyBins (generateSpectrogramFrame ty t p rnd) = ?raw"
    if "\<forall>b \<in> set ?raw. b = 0"
  proof -
    have "\<not> (\<exists>b \<in> set ?raw. 0 < b)" using that by auto
    then have "\<not> 0 < Max (set ?raw)" using ne by (simp add: Max_pos_iff)
    then show ?thesis unfolding out by (simp add: normalizeBins_skip)
  qed
qed

lemma table_profile_nonneg:
  "0 \<le> pp_amplitude (phoneticProfiles ty)" "0 \<le> pp_sustainLevel (phoneticProfiles ty)"
  by (cases ty; simp add: phoneticProfiles.simps)+

lemma table_maxTimeIndex: "real_of_int \<lfloor>pp_duration (phoneticProfiles ty)\<rfloor> = pp_duration (phoneticProfiles ty)"
  by (cases ty; simp add: phoneticProfiles.simps)

text \<open>
  Claim C2.  For every phonetic type with its profile from the table, every time index
  from \<open>0\<close> to the profile's duration (\<open>generateWave\<close> passes \<open>0, \<dots>, maxTimeIndex - 1\<close>)
  and noise draws in \<open>[0, 1)\<close>: every bin of the returned frame lies in \<open>[0, 1]\<close>; when
  some bin is positive before normalisation, some bin of the frame is exactly \<open>1\<close>; and
  when all bins are zero before normalisation, the frame is these bins unchanged, all
  zero.
\<close>

theorem C2_frame_normalized:
  assumes "0 \<le> timeIndex" and "timeIndex \<le> pp_duration (phoneticProfiles phoneticType)"
    and "\<forall>i. 0 \<le> rnd i \<and> rnd i < 1"
  shows "(\<forall>b \<in> set (sd_frequencyBins (generateSpectrogramFrame phoneticType timeIndex
                (phoneticProfiles phoneticType) rnd)). 0 \<le> b \<and> b \<le> 1)
       \<and> ((\<exists>b \<in> set (rawFrequencyBins phoneticType timeIndex
                (phoneticProfiles phoneticType) rnd). 0 < b)
            \<longrightarrow> 1 \<in> set (sd_frequencyBins (generateSpectrogramFrame phoneticType timeIndex
                (phoneticProfiles phoneticType) rnd)))
       \<and> ((\<forall>b \<in> set (rawFrequencyBins phoneticType timeIndex
                (phoneticProfiles phoneticType) rnd). b = 0)
            \<longrightarrow> sd_frequencyBins (generateSpectrogramFrame phoneticType timeIndex
                  (phoneticProfiles phoneticType) rnd)
                = rawFrequencyBins phoneticType timeIndex (phoneticProfiles phoneticType) rnd
              \<and> (\<forall>b \<in> set (sd_frequencyBins (generateSpectrogramFrame phoneticType timeIndex
                  (phoneticProfiles phoneticType) rnd)). b = 0))"
proof -
  have r: "\<forall>i. 0 \<le> rnd i" using assms(3) by simp
  note n = frame_normalized [where p = "phoneticProfiles phoneticType" and ty = phoneticType,
      OF table_profile_nonneg assms(1,2) r]
  show ?thesis
  proof (intro conjI impI)
    show "\<forall>b \<in> set (sd_frequencyBins (generateSpectrogramFrame phoneticType timeIndex
                (phoneticProfiles phoneticType) rnd)). 0 \<le> b \<and> b \<le> 1"
      by (rule n(1))
  next
    assume "\<exists>b \<in> set (rawFrequencyBins phoneticType timeIndex
                (phoneticProfiles phoneticType) rnd). 0 < b"
    then show "1 \<in> set (sd_frequencyBins (generateSpectrogramFrame phoneticType timeIndex
                (phoneticProfiles phoneticType) rnd))"
      by (rule n(2))
  next
    assume z: "\<forall>b \<in> set (rawFrequencyBins phoneticType timeIndex
                (phoneticProfiles phoneticType) rnd). b = 0"
    then show e: "sd_frequencyBins (generateSpectrogramFrame phoneticType timeIndex
                  (phoneticProfiles phoneticType) rnd)
                = rawFrequencyBins phoneticType timeIndex (phoneticProfiles phoneticType) rnd"
      by (rule n(3))
    show "\<forall>b \<in> set (sd_frequencyBins (generateSpectrogramFrame phoneticType timeIndex
                  (phoneticProfiles phoneticType) rnd)). b = 0"
      unfolding e using z .
  qed
qed

text \<open>
  The hypotheses of C2 hold for the vowel at time index \<open>10\<close>, where bin \<open>2\<close> is positive
  before normalisation.
\<close>

theorem C2_frame_normalized_witness:
  "list_all (\<lambda>b. 0 \<le> b \<and> b \<le> 1)
     (sd_frequencyBins (generateSpectrogramFrame Vowel 10 (phoneticProfiles Vowel) (\<lambda>i. 0)))
   \<and> 1 \<in> set (sd_frequencyBins
         (generateSpectrogramFrame Vowel 10 (phoneticProfiles Vowel) (\<lambda>i. 0)))"
proof -
  have h: "(0::real) \<le> 10" "10 \<le> pp_duration (phoneticProfiles Vowel)"
    "\<forall>i::nat. (0::real) \<le> 0 \<and> (0::real) < 1"
    by (simp_all add: phoneticProfiles.simps)
  let ?raw = "rawFrequencyBins Vowel 10 (phoneticProfiles Vowel) (\<lambda>i. 0)"
  have env: "modulatedEnvelope Vowel 10 (phoneticProfiles Vowel) = 1 / 5"
    by (simp add: modulatedEnvelope_def envelope_def Let_def phoneticProfiles.simps)
  have amp: "pp_amplitude (phoneticProfiles Vowel) = 4 / 5" by (simp add: phoneticProfiles.simps)
  have "?raw ! 2 = 4 / 25"
    by (simp add: rawFrequencyBins_nth frequencyBins_def vowel_shapeSum_2 env amp)
  moreover have "?raw ! 2 \<in> set ?raw"
    by (rule nth_mem) (simp add: rawFrequencyBins_length frequencyBins_def)
  ultimately have p: "\<exists>b \<in> set ?raw. 0 < b" by force
  show ?thesis
    using C2_frame_normalized [OF h] p by (simp add: list_all_iff)
qed

text \<open>
  Every frame of a wave that \<open>generateWave\<close> appends has its bins in \<open>[0, 1]\<close>.
\<close>

lemma generateWave_frames_normalized:
  assumes "\<forall>i. 0 \<le> rnd i \<and> rnd i < 1"
    and "fr \<in> set (pw_spectrograms (last (pe_waves (generateWave ty rnd s))))"
    and "b \<in> set (sd_frequencyBins fr)"
  shows "0 \<le> b \<and> b \<le> 1"
proof -
  let ?p = "phoneticProfiles ty"
  from assms(2) obtain t where t: "t < nat \<lfloor>pp_duration ?p\<rfloor>"
    and fr: "fr = generateSpectrogramFrame ty (real t) ?p (\<lambda>i. rnd (frequencyBins * t + i))"
    by (auto simp: generateWave_def Let_def)
  have "real t \<le> real_of_int \<lfloor>pp_duration ?p\<rfloor>" using t by linarith
  then have le: "real t \<le> pp_duration ?p" unfolding table_maxTimeIndex .
  have r: "\<forall>i. 0 \<le> rnd (frequencyBins * t + i)" using assms(1) by simp
  have "(0::real) \<le> real t" by simp
  from frame_normalized(1) [where p = "phoneticProfiles ty" and ty = ty,
      OF table_profile_nonneg this le r] assms(3)
  show ?thesis unfolding fr by blast
qed

section \<open>The envelope\<close>

text \<open>
  Claim C3.  The claim describes the decay window as a linear ramp from the sustain level
  down to \<open>0\<close>.  The code computes \<open>1 - decayProgress\<close> there, a ramp from \<open>1\<close> down
  to \<open>0\<close> that does not involve the sustain level: for the vowel profile the envelope at
  time index \<open>700\<close> is \<open>0.5\<close> where the claim gives \<open>0.45\<close>, and it jumps from \<open>0.9\<close>
  at time index \<open>600\<close> up to \<open>0.995\<close> at \<open>601\<close>.
\<close>

theorem C3_envelope_decay_divergence:
  "envelope 700 (phoneticProfiles Vowel) = 1 / 2
   \<and> specEnvelope 700 (phoneticProfiles Vowel) = 9 / 20
   \<and> envelope 601 (phoneticProfiles Vowel) = 199 / 200
   \<and> envelope 600 (phoneticProfiles Vowel) = 9 / 10"
  by (simp add: envelope_def specEnvelope_def phoneticProfiles.simps Let_def)

text \<open>Outside the decay window the code's envelope is the specification's.\<close>

lemma envelope_agrees_outside_decay:
  assumes "timeIndex < pp_attackTime profile
           \<or> timeIndex \<le> pp_duration profile - pp_decayTime profile"
  shows "envelope timeIndex profile = specEnvelope timeIndex profile"
  using assms by (auto simp: envelope_def specEnvelope_def Let_def)

text \<open>Inside it, they differ whenever the sustain level is not \<open>1\<close> and the ramp is not at its end.\<close>

lemma envelope_differs_in_decay:
  assumes "\<not> timeIndex < pp_attackTime profile"
    and "pp_duration profile - pp_decayTime profile < timeIndex"
    and "timeIndex < pp_duration profile" and "0 < pp_decayTime profile"
    and "pp_sustainLevel profile \<noteq> 1"
  shows "envelope timeIndex profile \<noteq> specEnvelope timeIndex profile"
proof -
  let ?d = "(timeIndex - (pp_duration profile - pp_decayTime profile)) / pp_decayTime profile"
  have "?d < 1" using assms(3,4) by (simp add: divide_less_eq)
  then have nz: "1 - ?d \<noteq> 0" by linarith
  have "envelope timeIndex profile = 1 - ?d"
    using assms(1,2) by (simp add: envelope_def Let_def)
  moreover have "specEnvelope timeIndex profile = pp_sustainLevel profile * (1 - ?d)"
    using assms(1,2) by (simp add: specEnvelope_def)
  ultimately show ?thesis using nz assms(5) by (simp del: divide_eq_0_iff)
qed

section \<open>Fricative noise\<close>

lemma gaussian_le_1: "gaussian i b w \<le> 1"
proof -
  have "0 \<le> real_of_int (\<bar>i - b\<bar> * \<bar>i - b\<bar>)" by simp
  moreover have "0 \<le> 2 * (real_of_int w / 3) * (real_of_int w / 3)" by simp
  ultimately have "- real_of_int (\<bar>i - b\<bar> * \<bar>i - b\<bar>)
      / (2 * (real_of_int w / 3) * (real_of_int w / 3)) \<le> 0"
    by (intro divide_nonpos_nonneg) simp_all
  then show ?thesis unfolding gaussian_def Let_def by (simp only: exp_le_one_iff)
qed

lemma peakShape_le_1: "peakShape p c j \<le> 1"
  using gaussian_le_1 by (simp add: peakShape_def Let_def)

lemma shapeSum_le: "shapeSum p j \<le> real (length (pp_peakFrequencies p))"
proof -
  have "(\<Sum>c \<leftarrow> cs. peakShape p c j) \<le> real (length cs)" for cs
  proof (induction cs)
    case Nil
    then show ?case by simp
  next
    case (Cons c cs)
    then show ?case using peakShape_le_1 [of p c j] by simp
  qed
  then show ?thesis by (simp add: shapeSum_def)
qed

lemma normalizeBins_nth:
  "j < length bins \<Longrightarrow>
     normalizeBins bins ! j
       = (if 0 < Max (set bins) then max 0 (bins ! j / Max (set bins)) else bins ! j)"
  by (auto simp: normalizeBins_def)

lemma fricative_binIndex:
  "frequencyToBinIndex 3000 = 36" "frequencyToBinIndex 5000 = 61" "frequencyToBinIndex 7000 = 86"
  by (simp_all add: frequencyToBinIndex_def frequencyBins_def)

lemma fricative_shapeSum_0: "shapeSum (phoneticProfiles Fricative) 0 = 0"
  by (simp add: shapeSum_def peakShape_def Let_def fricative_binIndex frequencyBins_def
      phoneticProfiles.simps)

lemma fricative_fields:
  "pp_amplitude (phoneticProfiles Fricative) = 2 / 5"
  "length (pp_peakFrequencies (phoneticProfiles Fricative)) = 3"
  "modulatedEnvelope Fricative 15 (phoneticProfiles Fricative) = 1 / 2"
  by (simp_all add: phoneticProfiles.simps modulatedEnvelope_def envelope_def Let_def)

text \<open>
  Claim C9 as stated is about the returned bin vectors.  Each run divides its bins by its
  own maximum, so two runs differ by more than \<open>0.1 \<times> envelope\<close>: at time index \<open>15\<close>
  (envelope \<open>0.5\<close>), with all draws \<open>0\<close> in one run and the draw \<open>0.9\<close> for bin \<open>0\<close> in
  the other, bin \<open>0\<close> of the returned frames differs by more than \<open>0.05\<close>.
\<close>

theorem C9_counterexample:
  "\<not> (\<bar>sd_frequencyBins (generateSpectrogramFrame Fricative 15 (phoneticProfiles Fricative)
            (\<lambda>i. 0)) ! 0
        - sd_frequencyBins (generateSpectrogramFrame Fricative 15 (phoneticProfiles Fricative)
            (\<lambda>i. if i = 0 then 9 / 10 else 0)) ! 0\<bar>
       \<le> 0.1 * modulatedEnvelope Fricative 15 (phoneticProfiles Fricative))"
proof -
  let ?p = "phoneticProfiles Fricative"
  let ?r2 = "\<lambda>i::nat. if i = 0 then 9 / 10 else (0::real)"
  let ?raw1 = "rawFrequencyBins Fricative 15 ?p (\<lambda>i. 0)"
  let ?raw2 = "rawFrequencyBins Fricative 15 ?p ?r2"
  have z: "(0::nat) < frequencyBins" by (simp add: frequencyBins_def)
  have raw1_0: "?raw1 ! 0 = 0"
    by (simp add: rawFrequencyBins_nth [OF z] fricative_shapeSum_0)
  have out1: "normalizeBins ?raw1 ! 0 = 0"
    by (subst normalizeBins_nth) (simp_all add: rawFrequencyBins_length z raw1_0)
  have raw2_0: "?raw2 ! 0 = 9 / 200"
    by (simp add: rawFrequencyBins_nth [OF z] fricative_shapeSum_0 fricative_fields)
  have raw2_le: "b \<le> 129 / 200" if "b \<in> set ?raw2" for b
  proof -
    from that obtain j where j: "j < frequencyBins" and b: "b = ?raw2 ! j"
      by (auto simp: in_set_conv_nth rawFrequencyBins_length)
    have "shapeSum ?p j \<le> 3" using shapeSum_le [of ?p j] by (simp add: fricative_fields)
    then show ?thesis unfolding b rawFrequencyBins_nth [OF j]
      by (cases "j = 0") (simp_all add: fricative_fields)
  qed
  have ne: "?raw2 \<noteq> []" by (rule rawFrequencyBins_nonempty)
  have mem: "?raw2 ! 0 \<in> set ?raw2"
    by (rule nth_mem) (simp add: rawFrequencyBins_length z)
  have lo: "9 / 200 \<le> Max (set ?raw2)"
    using Max_ge [OF finite_set mem] unfolding raw2_0 .
  have hi: "Max (set ?raw2) \<le> 129 / 200"
    using ne raw2_le by (subst Max_le_iff) simp_all
  have pos: "0 < Max (set ?raw2)" using lo by linarith
  have "9 / 200 / (129 / 200) \<le> 9 / 200 / Max (set ?raw2)"
    using hi pos by (intro divide_left_mono) simp_all
  then have q: "1 / 20 < 9 / 200 / Max (set ?raw2)" by simp
  have out2: "normalizeBins ?raw2 ! 0 = max 0 (9 / 200 / Max (set ?raw2))"
    using pos by (subst normalizeBins_nth) (simp_all add: rawFrequencyBins_length z raw2_0)
  have "1 / 20 < normalizeBins ?raw2 ! 0" unfolding out2 using q by simp
  then show ?thesis
    by (simp add: generateSpectrogramFrame_def out1 fricative_fields)
qed

text \<open>
  Claim C9, as amended.  Before normalisation, each run's bins are the deterministic peak
  bins plus the run's own noise term \<open>rnd j \<times> 0.1 \<times> envelope\<close>, so for draws in
  \<open>[0, 1)\<close> two runs at the same time index and profile differ in every bin by at most
  \<open>0.1 \<times> |envelope|\<close>.
\<close>

theorem C9_noise_additive:
  assumes "j < frequencyBins"
    and "\<forall>i. 0 \<le> rnd1 i \<and> rnd1 i < 1" and "\<forall>i. 0 \<le> rnd2 i \<and> rnd2 i < 1"
  shows "rawFrequencyBins Fricative t p rnd1 ! j
           = peakBins p (modulatedEnvelope Fricative t p) ! j
             + rnd1 j * 0.1 * modulatedEnvelope Fricative t p
       \<and> rawFrequencyBins Fricative t p rnd2 ! j
           = peakBins p (modulatedEnvelope Fricative t p) ! j
             + rnd2 j * 0.1 * modulatedEnvelope Fricative t p
       \<and> \<bar>rawFrequencyBins Fricative t p rnd1 ! j - rawFrequencyBins Fricative t p rnd2 ! j\<bar>
           \<le> 0.1 * \<bar>modulatedEnvelope Fricative t p\<bar>"
proof -
  let ?e = "modulatedEnvelope Fricative t p"
  have r: "rawFrequencyBins Fricative t p rnd ! j = peakBins p ?e ! j + rnd j * 0.1 * ?e" for rnd
    using assms(1) by (simp add: rawFrequencyBins_nth peakBins_nth)
  have "0 \<le> rnd1 j" "rnd1 j < 1" "0 \<le> rnd2 j" "rnd2 j < 1"
    using assms(2,3) by simp_all
  then have "\<bar>rnd1 j - rnd2 j\<bar> \<le> 1"
    by linarith
  then have "\<bar>rnd1 j - rnd2 j\<bar> * (0.1 * \<bar>?e\<bar>) \<le> 1 * (0.1 * \<bar>?e\<bar>)"
    by (intro mult_right_mono) simp_all
  moreover have "\<bar>(peakBins p ?e ! j + rnd1 j * 0.1 * ?e) - (peakBins p ?e ! j + rnd2 j * 0.1 * ?e)\<bar>
      = \<bar>rnd1 j - rnd2 j\<bar> * (0.1 * \<bar>?e\<bar>)"
  proof -
    have "(peakBins p ?e ! j + rnd1 j * 0.1 * ?e) - (peakBins p ?e ! j + rnd2 j * 0.1 * ?e)
        = (rnd1 j - rnd2 j) * (0.1 * ?e)"
      by (simp add: algebra_simps)
    then have "\<bar>(peakBins p ?e ! j + rnd1 j * 0.1 * ?e) - (peakBins p ?e ! j + rnd2 j * 0.1 * ?e)\<bar>
        = \<bar>(rnd1 j - rnd2 j) * (0.1 * ?e)\<bar>"
      by (rule arg_cong)
    also have "\<dots> = \<bar>rnd1 j - rnd2 j\<bar> * (0.1 * \<bar>?e\<bar>)"
      by (simp add: abs_mult)
    finally show ?thesis .
  qed
  ultimately show ?thesis unfolding r by simp
qed

text \<open>The two runs of the counterexample, before normalisation, at bin \<open>0\<close>.\<close>

theorem C9_noise_additive_witness:
  "\<bar>rawFrequencyBins Fricative 15 (phoneticProfiles Fricative) (\<lambda>i. 0) ! 0
      - rawFrequencyBins Fricative 15 (phoneticProfiles Fricative)
          (\<lambda>i. if i = 0 then 9 / 10 else 0) ! 0\<bar>
     \<le> 1 / 20"
proof -
  have h: "(0::nat) < frequencyBins" "\<forall>i::nat. (0::real) \<le> 0 \<and> (0::real) < 1"
    "\<forall>i::nat. (0::real) \<le> (if i = 0 then 9 / 10 else 0) \<and> (if i = 0 then 9 / 10 else 0) < (1::real)"
    by (simp_all add: frequencyBins_def)
  show ?thesis
    using C9_noise_additive [OF h, of 15 "phoneticProfiles Fricative"]
    by (simp add: fricative_fields)
qed

section \<open>The vowel envelope and the synthesized frames\<close>

lemma modulatedEnvelope_not_trill:
  "ty \<noteq> Trill \<Longrightarrow> modulatedEnvelope ty t p = envelope t p"
  by (simp add: modulatedEnvelope_def Let_def)

lemma vowel_envelope:
  "envelope t (phoneticProfiles Vowel) =
     (if t < 50 then t / 50 else if 600 < t then 1 - (t - 600) / 200 else 9 / 10)"
  by (simp add: envelope_def Let_def phoneticProfiles.simps)

lemma vowel_envelope_pos:
  assumes "0 < t" and "t < 800"
  shows "0 < modulatedEnvelope Vowel t (phoneticProfiles Vowel)"
proof -
  have "(t - 600) / 200 < 1" using assms(2) by simp
  then show ?thesis using assms(1)
    by (simp add: modulatedEnvelope_not_trill vowel_envelope)
qed

lemma vowel_shapeSum_peak:
  assumes "c \<in> set (pp_peakFrequencies (phoneticProfiles Vowel))"
  shows "nat (frequencyToBinIndex c) < frequencyBins"
    and "shapeSum (phoneticProfiles Vowel) (nat (frequencyToBinIndex c)) = 1"
proof -
  from assms have c: "c = 300 \<or> c = 1200 \<or> c = 2500"
    by (simp add: phoneticProfiles.simps)
  then show "nat (frequencyToBinIndex c) < frequencyBins"
    by (auto simp: vowel_binIndex frequencyBins_def)
  from c show "shapeSum (phoneticProfiles Vowel) (nat (frequencyToBinIndex c)) = 1"
    by (auto simp: shapeSum_def peakShape_def Let_def vowel_binIndex frequencyBins_def
        gaussian_def phoneticProfiles.simps)
qed

lemma vowel_raw_peak:
  assumes "c \<in> set (pp_peakFrequencies (phoneticProfiles Vowel))"
  shows "rawFrequencyBins Vowel t (phoneticProfiles Vowel) rnd ! nat (frequencyToBinIndex c)
       = 4 / 5 * envelope t (phoneticProfiles Vowel)"
proof -
  have amp: "pp_amplitude (phoneticProfiles Vowel) = 4 / 5"
    by (simp add: phoneticProfiles.simps)
  show ?thesis
    using vowel_shapeSum_peak [OF assms]
    by (simp add: rawFrequencyBins_nth modulatedEnvelope_not_trill amp)
qed

lemma vowel_shapeSum_le_1: "shapeSum (phoneticProfiles Vowel) j \<le> 1"
proof -
  let ?p = "phoneticProfiles Vowel"
  have s: "shapeSum ?p j = peakShape ?p 300 j + peakShape ?p 1200 j + peakShape ?p 2500 j"
    by (simp add: shapeSum_def phoneticProfiles.simps)
  have w1: "peakShape ?p 300 j = 0" if "\<not> j < 4"
    using that
    by (simp add: peakShape_def Let_def vowel_binIndex frequencyBins_def phoneticProfiles.simps)
  have w2: "peakShape ?p 1200 j = 0" if "\<not> (11 \<le> j \<and> j < 15)"
    using that
    by (auto simp: peakShape_def Let_def vowel_binIndex frequencyBins_def phoneticProfiles.simps)
  have w3: "peakShape ?p 2500 j = 0" if "\<not> (28 \<le> j \<and> j < 32)"
    using that
    by (auto simp: peakShape_def Let_def vowel_binIndex frequencyBins_def phoneticProfiles.simps)
  consider "j < 4" | "11 \<le> j \<and> j < 15" | "4 \<le> j \<and> \<not> (11 \<le> j \<and> j < 15)" by linarith
  then show ?thesis
  proof cases
    case 1
    then have "peakShape ?p 1200 j = 0" "peakShape ?p 2500 j = 0" by (simp_all add: w2 w3)
    then show ?thesis unfolding s using peakShape_le_1 [of ?p 300 j] by simp
  next
    case 2
    then have "peakShape ?p 300 j = 0" "peakShape ?p 2500 j = 0" by (simp_all add: w1 w3)
    then show ?thesis unfolding s using peakShape_le_1 [of ?p 1200 j] by simp
  next
    case 3
    then have "peakShape ?p 300 j = 0" "peakShape ?p 1200 j = 0" by (simp_all add: w1 w2)
    then show ?thesis unfolding s using peakShape_le_1 [of ?p 2500 j] by simp
  qed
qed

text \<open>
  In the returned frame the bin of a peak frequency is the frame's maximum divided by
  itself.
\<close>

lemma vowel_peak_bin_one:
  assumes "c \<in> set (pp_peakFrequencies (phoneticProfiles Vowel))" and "0 < t" and "t < 800"
  shows "sd_frequencyBins (generateSpectrogramFrame Vowel t (phoneticProfiles Vowel) rnd)
           ! nat (frequencyToBinIndex c) = 1"
proof -
  let ?p = "phoneticProfiles Vowel"
  let ?raw = "rawFrequencyBins Vowel t ?p rnd"
  let ?j = "nat (frequencyToBinIndex c)"
  let ?e = "modulatedEnvelope Vowel t ?p"
  have amp: "pp_amplitude ?p = 4 / 5" by (simp add: phoneticProfiles.simps)
  have e: "0 < ?e" using assms(2,3) by (rule vowel_envelope_pos)
  note j = vowel_shapeSum_peak [OF assms(1)]
  have nth: "?raw ! k = 4 / 5 * ?e * shapeSum ?p k" if "k < frequencyBins" for k
    using that by (simp add: rawFrequencyBins_nth amp)
  have peak: "?raw ! ?j = 4 / 5 * ?e" using nth [OF j(1)] j(2) by simp
  have pos: "0 < ?raw ! ?j" unfolding peak using e by simp
  have mem: "?raw ! ?j \<in> set ?raw"
    by (rule nth_mem) (simp add: rawFrequencyBins_length j(1))
  have le: "b \<le> ?raw ! ?j" if "b \<in> set ?raw" for b
  proof -
    from that obtain k where k: "k < frequencyBins" and b: "b = ?raw ! k"
      by (auto simp: in_set_conv_nth rawFrequencyBins_length)
    have "4 / 5 * ?e * shapeSum ?p k \<le> 4 / 5 * ?e * 1"
      using e vowel_shapeSum_le_1 [of k] by (intro mult_left_mono) simp_all
    then show ?thesis unfolding b nth [OF k] peak by simp
  qed
  have mx: "Max (set ?raw) = ?raw ! ?j"
    using le mem by (intro Max_eqI) simp_all
  have "normalizeBins ?raw ! ?j = max 0 (?raw ! ?j / ?raw ! ?j)"
    using pos by (simp add: normalizeBins_nth rawFrequencyBins_length j(1) mx)
  also have "\<dots> = 1" using pos by simp
  finally show ?thesis by (simp add: generateSpectrogramFrame_def)
qed

text \<open>
  Claim C7, as amended.  For the vowel profile and the bin of each of its peak
  frequencies.  In the returned frame, which is normalised, this bin is exactly \<open>1\<close> at
  every time index strictly between \<open>0\<close> and \<open>800\<close>: it neither increases nor decreases.
  Before normalisation the bin's energy is \<open>0.8 \<times> envelope\<close>: it strictly increases with
  the time index in the attack window (below \<open>50\<close>), is \<open>0.8 \<times> 0.9\<close>, the amplitude times
  the sustain level, from \<open>50\<close> to \<open>600\<close>, and strictly decreases within the decay window
  (above \<open>600\<close>).
\<close>

theorem C7_vowel_envelope:
  assumes "c \<in> set (pp_peakFrequencies (phoneticProfiles Vowel))"
  shows "(0 < t1 \<and> t1 < 800 \<longrightarrow>
            sd_frequencyBins (generateSpectrogramFrame Vowel t1 (phoneticProfiles Vowel) rnd)
              ! nat (frequencyToBinIndex c) = 1)
       \<and> rawFrequencyBins Vowel t1 (phoneticProfiles Vowel) rnd ! nat (frequencyToBinIndex c)
           = 0.8 * envelope t1 (phoneticProfiles Vowel)
       \<and> (t1 < t2 \<and> t2 < 50 \<longrightarrow>
            rawFrequencyBins Vowel t1 (phoneticProfiles Vowel) rnd ! nat (frequencyToBinIndex c)
          < rawFrequencyBins Vowel t2 (phoneticProfiles Vowel) rnd ! nat (frequencyToBinIndex c))
       \<and> (50 \<le> t1 \<and> t1 \<le> 600 \<longrightarrow>
            rawFrequencyBins Vowel t1 (phoneticProfiles Vowel) rnd ! nat (frequencyToBinIndex c)
          = 0.8 * 0.9)
       \<and> (600 < t1 \<and> t1 < t2 \<longrightarrow>
            rawFrequencyBins Vowel t2 (phoneticProfiles Vowel) rnd ! nat (frequencyToBinIndex c)
          < rawFrequencyBins Vowel t1 (phoneticProfiles Vowel) rnd ! nat (frequencyToBinIndex c))"
proof (intro conjI impI)
  assume "0 < t1 \<and> t1 < 800"
  then show "sd_frequencyBins (generateSpectrogramFrame Vowel t1 (phoneticProfiles Vowel) rnd)
              ! nat (frequencyToBinIndex c) = 1"
    using assms by (intro vowel_peak_bin_one) simp_all
next
  show "rawFrequencyBins Vowel t1 (phoneticProfiles Vowel) rnd ! nat (frequencyToBinIndex c)
           = 0.8 * envelope t1 (phoneticProfiles Vowel)"
    by (simp add: vowel_raw_peak [OF assms])
next
  assume "t1 < t2 \<and> t2 < 50"
  then show "rawFrequencyBins Vowel t1 (phoneticProfiles Vowel) rnd ! nat (frequencyToBinIndex c)
          < rawFrequencyBins Vowel t2 (phoneticProfiles Vowel) rnd ! nat (frequencyToBinIndex c)"
    by (simp add: vowel_raw_peak [OF assms] vowel_envelope)
next
  assume "50 \<le> t1 \<and> t1 \<le> 600"
  then show "rawFrequencyBins Vowel t1 (phoneticProfiles Vowel) rnd ! nat (frequencyToBinIndex c)
          = 0.8 * 0.9"
    by (simp add: vowel_raw_peak [OF assms] vowel_envelope)
next
  assume "600 < t1 \<and> t1 < t2"
  then show "rawFrequencyBins Vowel t2 (phoneticProfiles Vowel) rnd ! nat (frequencyToBinIndex c)
          < rawFrequencyBins Vowel t1 (phoneticProfiles Vowel) rnd ! nat (frequencyToBinIndex c)"
    by (simp add: vowel_raw_peak [OF assms] vowel_envelope)
qed

text \<open>
  The vowel's first formant, \<open>300\<close> Hz, at time indices \<open>10, 20\<close>, at \<open>100\<close> and at
  \<open>650, 700\<close>.
\<close>

theorem C7_vowel_envelope_witness:
  "sd_frequencyBins (generateSpectrogramFrame Vowel 10 (phoneticProfiles Vowel) (\<lambda>i. 0))
     ! nat (frequencyToBinIndex 300) = 1
   \<and> rawFrequencyBins Vowel 10 (phoneticProfiles Vowel) (\<lambda>i. 0) ! nat (frequencyToBinIndex 300)
     < rawFrequencyBins Vowel 20 (phoneticProfiles Vowel) (\<lambda>i. 0) ! nat (frequencyToBinIndex 300)
   \<and> rawFrequencyBins Vowel 100 (phoneticProfiles Vowel) (\<lambda>i. 0) ! nat (frequencyToBinIndex 300)
     = 0.8 * 0.9
   \<and> rawFrequencyBins Vowel 700 (phoneticProfiles Vowel) (\<lambda>i. 0) ! nat (frequencyToBinIndex 300)
     < rawFrequencyBins Vowel 650 (phoneticProfiles Vowel) (\<lambda>i. 0) ! nat (frequencyToBinIndex 300)"
proof -
  have h: "300 \<in> set (pp_peakFrequencies (phoneticProfiles Vowel))"
    by (simp add: phoneticProfiles.simps)
  show ?thesis
    using C7_vowel_envelope [OF h, of 10 "\<lambda>i. 0" 20] C7_vowel_envelope [OF h, of 100 "\<lambda>i. 0" 200]
      C7_vowel_envelope [OF h, of 650 "\<lambda>i. 0" 700]
    by simp
qed

text \<open>
  Claim C7 as stated is about the synthesized frames.  Time indices \<open>10\<close> and \<open>20\<close> are
  both in the vowel's attack window, and the frame's bin at the first peak frequency is
  \<open>1\<close> at both: it does not increase from one to the other.
\<close>

theorem C7_counterexample:
  "\<not> (sd_frequencyBins (generateSpectrogramFrame Vowel 10 (phoneticProfiles Vowel) (\<lambda>i. 0))
          ! nat (frequencyToBinIndex 300)
      < sd_frequencyBins (generateSpectrogramFrame Vowel 20 (phoneticProfiles Vowel) (\<lambda>i. 0))
          ! nat (frequencyToBinIndex 300))"
proof -
  have h: "300 \<in> set (pp_peakFrequencies (phoneticProfiles Vowel))"
    by (simp add: phoneticProfiles.simps)
  have "sd_frequencyBins (generateSpectrogramFrame Vowel 10 (phoneticProfiles Vowel) (\<lambda>i. 0))
          ! nat (frequencyToBinIndex 300) = 1"
    "sd_frequencyBins (generateSpectrogramFrame Vowel 20 (phoneticProfiles Vowel) (\<lambda>i. 0))
          ! nat (frequencyToBinIndex 300) = 1"
    by (rule vowel_peak_bin_one [OF h]; simp)+
  then show ?thesis by simp
qed

section \<open>Wave ids and reset\<close>

lemma digit_char_inj:
  assumes "a < 10" and "b < 10" and "digit_char a = digit_char b"
  shows "a = b"
proof -
  have d: "distinct ''0123456789''" by simp
  have l: "length ''0123456789'' = 10" by simp
  from assms show ?thesis
    unfolding digit_char_def using nth_eq_iff_index_eq [OF d, of a b] l by simp
qed

lemma string_of_nat_nonempty: "string_of_nat n \<noteq> []"
  by (subst string_of_nat.simps) simp

lemma string_of_nat_inj: "string_of_nat m = string_of_nat n \<Longrightarrow> m = n"
proof (induction m arbitrary: n rule: string_of_nat.induct)
  case (1 m)
  show ?case
  proof (cases "m < 10")
    case m: True
    show ?thesis
    proof (cases "n < 10")
      case True
      with m "1.prems" show ?thesis
        by (simp add: string_of_nat.simps [of m] string_of_nat.simps [of n] digit_char_inj)
    next
      case False
      with m "1.prems" string_of_nat_nonempty [of "n div 10"] show ?thesis
        by (simp add: string_of_nat.simps [of m] string_of_nat.simps [of n])
    qed
  next
    case m: False
    show ?thesis
    proof (cases "n < 10")
      case True
      with m "1.prems" string_of_nat_nonempty [of "m div 10"] show ?thesis
        by (simp add: string_of_nat.simps [of m] string_of_nat.simps [of n])
    next
      case False
      with m "1.prems" have e: "string_of_nat (m div 10) = string_of_nat (n div 10)"
        and d: "digit_char (m mod 10) = digit_char (n mod 10)"
        by (simp_all add: string_of_nat.simps [of m] string_of_nat.simps [of n])
      from "1.IH" [OF m e] have "m div 10 = n div 10" .
      moreover from d have "m mod 10 = n mod 10" by (intro digit_char_inj) simp_all
      ultimately show ?thesis by (metis div_mult_mod_eq)
    qed
  qed
qed

lemma generateWave_waveId [simp]: "pe_waveId (generateWave ty rnd s) = pe_waveId s + 1"
  by (simp add: generateWave_def Let_def)

lemma generateWave_time [simp]: "pe_time (generateWave ty rnd s) = pe_time s"
  by (simp add: generateWave_def Let_def)

lemma generateWave_waves: "pe_waves (generateWave ty rnd s) = pe_waves s @ [newWave ty rnd s]"
  by (simp add: generateWave_def newWave_def Let_def)

lemma newWave_fields [simp]:
  "pw_id (newWave ty rnd s) = ''wave-'' @ string_of_nat (pe_waveId s)"
  "pw_birthTime (newWave ty rnd s) = pe_time s"
  "pw_type (newWave ty rnd s) = ty"
  "pw_currentTimeIndex (newWave ty rnd s) = 0"
  "pw_maxTimeIndex (newWave ty rnd s) = \<lfloor>pp_duration (phoneticProfiles ty)\<rfloor>"
  "pw_isActive (newWave ty rnd s)"
  "length (pw_spectrograms (newWave ty rnd s)) = nat \<lfloor>pp_duration (phoneticProfiles ty)\<rfloor>"
  by (simp_all add: generateWave_def newWave_def Let_def)

lemma updateTime_waveId [simp]: "pe_waveId (snd (updateTime dt s)) = pe_waveId s"
  by (simp add: updateTime_def Let_def)

lemma reset_fields [simp]:
  "pe_waves (reset s) = []" "pe_time (reset s) = 0" "pe_waveId (reset s) = 0"
  by (simp_all add: reset_def)

lemma run_simps [simp]:
  "run [] s = s" "run (c # cs) s = run cs (call c s)"
  by (simp_all add: run_def)

lemma issued_since:
  assumes "Reset \<notin> set calls"
  shows "pe_waveId s \<le> pe_waveId (run calls s)
       \<and> (\<forall>i \<in> set (issuedIds calls s).
             \<exists>n. pe_waveId s \<le> n \<and> n < pe_waveId (run calls s)
                 \<and> i = ''wave-'' @ string_of_nat n)"
  using assms
proof (induction calls arbitrary: s)
  case Nil
  then show ?case by simp
next
  case (Cons c calls)
  then have ih: "pe_waveId (call c s) \<le> pe_waveId (run calls (call c s))
       \<and> (\<forall>i \<in> set (issuedIds calls (call c s)).
             \<exists>n. pe_waveId (call c s) \<le> n \<and> n < pe_waveId (run calls (call c s))
                 \<and> i = ''wave-'' @ string_of_nat n)"
    by simp
  show ?case
  proof (cases c)
    case (GenerateWave ty rnd)
    with ih show ?thesis
      by (auto intro: exI [of _ "pe_waveId s"]) (metis Suc_leD)
  next
    case (UpdateTime dt)
    with ih show ?thesis by simp
  next
    case Reset
    with Cons.prems show ?thesis by simp
  qed
qed

lemma getActiveWaveCount_reset: "getActiveWaveCount (reset s) = 0"
  by (simp add: getActiveWaveCount_def)

text \<open>
  Claim C4, as amended.  After \<open>reset\<close> the active wave count is \<open>0\<close> and the id counter
  is back at \<open>0\<close>, so a following \<open>generateWave('vowel')\<close> assigns the id \<open>wave-0\<close>.
  An id is fresh with respect to the ids issued since the last reset: after any sequence
  of calls without a \<open>reset\<close>, started in any state, the next wave's id differs from
  every id the sequence issued.
\<close>

theorem C4_fresh_id_since_reset:
  "getActiveWaveCount (reset s) = 0
   \<and> pw_id (newWave Vowel rnd (reset s)) = ''wave-0''
   \<and> (Reset \<notin> set calls \<longrightarrow>
        pw_id (newWave phoneticType rnd (run calls s)) \<notin> set (issuedIds calls s))"
proof (intro conjI impI)
  show "getActiveWaveCount (reset s) = 0" by (rule getActiveWaveCount_reset)
  show "pw_id (newWave Vowel rnd (reset s)) = ''wave-0''"
    by (simp add: string_of_nat.simps digit_char_def)
  assume nr: "Reset \<notin> set calls"
  show "pw_id (newWave phoneticType rnd (run calls s)) \<notin> set (issuedIds calls s)"
  proof
    assume "pw_id (newWave phoneticType rnd (run calls s)) \<in> set (issuedIds calls s)"
    with issued_since [OF nr, of s] obtain n
      where n: "n < pe_waveId (run calls s)"
        and e: "pw_id (newWave phoneticType rnd (run calls s)) = ''wave-'' @ string_of_nat n"
      by blast
    from e have "string_of_nat (pe_waveId (run calls s)) = string_of_nat n" by simp
    then have "pe_waveId (run calls s) = n" by (rule string_of_nat_inj)
    with n show False by simp
  qed
qed

text \<open>Two waves and a clock tick after a reset, then a vowel.\<close>

theorem C4_fresh_id_since_reset_witness:
  "pw_id (newWave Vowel (\<lambda>i. 0)
      (run [GenerateWave Trill (\<lambda>i. 0), UpdateTime 1, GenerateWave Plosive (\<lambda>i. 0)]
        (reset initialEngine)))
    \<notin> set (issuedIds [GenerateWave Trill (\<lambda>i. 0), UpdateTime 1, GenerateWave Plosive (\<lambda>i. 0)]
        (reset initialEngine))"
  using C4_fresh_id_since_reset
    [where s = "reset initialEngine" and rnd = "\<lambda>i. 0" and phoneticType = Vowel
       and calls = "[GenerateWave Trill (\<lambda>i. 0), UpdateTime 1, GenerateWave Plosive (\<lambda>i. 0)]"]
  by (simp add: string_of_nat.simps digit_char_def)

text \<open>
  Claim C4 as stated: three waves of mixed types, \<open>reset\<close>, then a vowel.  \<open>reset\<close> sets
  the id counter to \<open>0\<close>, so the vowel gets \<open>wave-0\<close>, the id of the first wave issued
  before the reset.
\<close>

theorem C4_counterexample:
  "pw_id (newWave Vowel (\<lambda>i. 0)
      (reset (run [GenerateWave Vowel (\<lambda>i. 0), GenerateWave Trill (\<lambda>i. 0),
                   GenerateWave Plosive (\<lambda>i. 0)] initialEngine)))
    \<in> set (issuedIds [GenerateWave Vowel (\<lambda>i. 0), GenerateWave Trill (\<lambda>i. 0),
                       GenerateWave Plosive (\<lambda>i. 0)] initialEngine)"
  by (simp add: initialEngine_def)

section \<open>Advancing the clock\<close>

lemma updateWave_survivors:
  "filter pw_isActive (map fst (map (updateWave now) ws))
     = map (\<lambda>w. w\<lparr>pw_currentTimeIndex := \<lfloor>(now - pw_birthTime w) * 10\<rfloor>\<rparr>)
         (filter (\<lambda>w. pw_isActive w \<and> \<lfloor>(now - pw_birthTime w) * 10\<rfloor> < pw_maxTimeIndex w) ws)"
  by (induction ws) (simp_all add: updateWave_def Let_def)





section \<open>The life cycle of a wave\<close>

lemma maxTimeIndex_pos: "0 < \<lfloor>pp_duration (phoneticProfiles ty)\<rfloor>"
  by (cases ty) (simp_all add: phoneticProfiles.simps)

lemma waveOk_generateWave:
  assumes "\<forall>w \<in> set (pe_waves s). waveOk (pe_time s) w"
  shows "\<forall>w \<in> set (pe_waves (generateWave ty rnd s)). waveOk (pe_time (generateWave ty rnd s)) w"
  using assms maxTimeIndex_pos [of ty]
  by (auto simp: generateWave_waves waveOk_def)

lemma updateTime_waves:
  "pe_waves (snd (updateTime dt s))
     = map (\<lambda>w. w\<lparr>pw_currentTimeIndex := \<lfloor>(pe_time s + dt - pw_birthTime w) * 10\<rfloor>\<rparr>)
         (filter (\<lambda>w. pw_isActive w
                      \<and> \<lfloor>(pe_time s + dt - pw_birthTime w) * 10\<rfloor> < pw_maxTimeIndex w)
            (pe_waves s))"
  unfolding updateTime_def Let_def snd_conv updateWave_survivors by simp

lemma updateTime_time [simp]: "pe_time (snd (updateTime dt s)) = pe_time s + dt"
  by (simp add: updateTime_def Let_def)

lemma waveOk_updateTime:
  assumes "\<forall>w \<in> set (pe_waves s). waveOk (pe_time s) w" and "0 \<le> dt"
  shows "\<forall>w \<in> set (pe_waves (snd (updateTime dt s))). waveOk (pe_time (snd (updateTime dt s))) w"
proof
  fix w' assume "w' \<in> set (pe_waves (snd (updateTime dt s)))"
  then obtain w where w: "w \<in> set (pe_waves s)" "pw_isActive w"
      and k: "\<lfloor>(pe_time s + dt - pw_birthTime w) * 10\<rfloor> < pw_maxTimeIndex w"
      and w': "w' = w\<lparr>pw_currentTimeIndex := \<lfloor>(pe_time s + dt - pw_birthTime w) * 10\<rfloor>\<rparr>"
    unfolding updateTime_waves by auto
  have b: "pw_birthTime w \<le> pe_time s" using assms(1) w(1) by (simp add: waveOk_def)
  then have age: "0 \<le> (pe_time s + dt - pw_birthTime w) * 10" using assms(2) by simp
  then have "0 \<le> \<lfloor>(pe_time s + dt - pw_birthTime w) * 10\<rfloor>" by simp
  moreover have "pw_birthTime w \<le> pe_time s + dt" using b assms(2) by simp
  ultimately show "waveOk (pe_time (snd (updateTime dt s))) w'"
    using w k unfolding w' by (simp add: waveOk_def)
qed

lemma waveOk_run:
  assumes "\<forall>c \<in> set calls. nonnegDelta c" and "\<forall>w \<in> set (pe_waves s). waveOk (pe_time s) w"
  shows "\<forall>w \<in> set (pe_waves (run calls s)). waveOk (pe_time (run calls s)) w"
  using assms
proof (induction calls arbitrary: s)
  case Nil
  then show ?case by simp
next
  case (Cons c calls)
  have "\<forall>w \<in> set (pe_waves (call c s)). waveOk (pe_time (call c s)) w"
  proof (cases c)
    case (GenerateWave ty rnd)
    then show ?thesis using waveOk_generateWave [OF Cons.prems(2)] by simp
  next
    case (UpdateTime dt)
    then have "0 \<le> dt" using Cons.prems(1) by simp
    with UpdateTime show ?thesis using waveOk_updateTime [OF Cons.prems(2)] by simp
  next
    case Reset
    then show ?thesis by simp
  qed
  moreover have "\<forall>c \<in> set calls. nonnegDelta c" using Cons.prems(1) by simp
  ultimately show ?case using Cons.IH by simp
qed

lemma updateWave_stays_inactive: "\<not> pw_isActive w \<Longrightarrow> \<not> pw_isActive (fst (updateWave now w))"
  by (simp add: updateWave_def)

lemma updateTime_all_active:
  "w \<in> set (pe_waves (snd (updateTime dt s))) \<Longrightarrow> pw_isActive w"
  by (simp add: updateTime_def Let_def)

text \<open>
  Claim C8.  The engine clock is monotonic: \<open>deltaTime\<close> is never negative.  In every engine
  state reached from a fresh engine by such calls, every wave of the engine is active and
  has \<open>0 \<le> currentTimeIndex \<le> maxTimeIndex\<close>.  \<open>updateTime\<close> never turns an inactive wave
  active again, \<open>generateWave\<close> only appends a new wave, and every wave left in the array
  by an \<open>updateTime\<close> call is active: the call that retires a wave also removes it.
\<close>

theorem C8_lifecycle:
  assumes "\<forall>c \<in> set calls. nonnegDelta c"
  shows "(\<forall>w \<in> set (pe_waves (run calls initialEngine)).
            pw_isActive w \<and> 0 \<le> pw_currentTimeIndex w
            \<and> pw_currentTimeIndex w \<le> pw_maxTimeIndex w)
       \<and> (\<forall>now w. \<not> pw_isActive w \<longrightarrow> \<not> pw_isActive (fst (updateWave now w)))
       \<and> (\<forall>phoneticType rnd s.
             pe_waves (generateWave phoneticType rnd s) = pe_waves s @ [newWave phoneticType rnd s])
       \<and> (\<forall>deltaTime s. \<forall>w \<in> set (pe_waves (snd (updateTime deltaTime s))). pw_isActive w)"
proof (intro conjI)
  have "\<forall>w \<in> set (pe_waves initialEngine). waveOk (pe_time initialEngine) w"
    by (simp add: initialEngine_def)
  with assms have "\<forall>w \<in> set (pe_waves (run calls initialEngine)).
      waveOk (pe_time (run calls initialEngine)) w"
    by (rule waveOk_run)
  then show "\<forall>w \<in> set (pe_waves (run calls initialEngine)).
            pw_isActive w \<and> 0 \<le> pw_currentTimeIndex w
            \<and> pw_currentTimeIndex w \<le> pw_maxTimeIndex w"
    by (auto simp: waveOk_def)
  show "\<forall>now w. \<not> pw_isActive w \<longrightarrow> \<not> pw_isActive (fst (updateWave now w))"
    by (simp add: updateWave_stays_inactive)
  show "\<forall>phoneticType rnd s.
      pe_waves (generateWave phoneticType rnd s) = pe_waves s @ [newWave phoneticType rnd s]"
    by (simp add: generateWave_waves)
  show "\<forall>deltaTime s. \<forall>w \<in> set (pe_waves (snd (updateTime deltaTime s))). pw_isActive w"
    by (simp add: updateTime_all_active)
qed

text \<open>A vowel, a tick, a plosive, and a tick that retires the plosive.\<close>

theorem C8_lifecycle_witness:
  "list_all (\<lambda>w. pw_isActive w \<and> 0 \<le> pw_currentTimeIndex w
                \<and> pw_currentTimeIndex w \<le> pw_maxTimeIndex w)
     (pe_waves (run [GenerateWave Vowel (\<lambda>i. 0), UpdateTime 1, GenerateWave Plosive (\<lambda>i. 0),
                     UpdateTime 25] initialEngine))"
proof -
  have h: "\<forall>c \<in> set [GenerateWave Vowel (\<lambda>i. 0), UpdateTime 1, GenerateWave Plosive (\<lambda>i. 0),
                     UpdateTime 25]. nonnegDelta c"
    by simp
  show ?thesis using C8_lifecycle [OF h] by (simp add: list_all_iff)
qed

section \<open>Height sampling outside the logical domain\<close>

text \<open>
  At the in-range point \<open>(1, 0.5)\<close> the probe engine's wave gives a positive height: the
  point is one unit away from the wave front and on the wave's centre angle.
\<close>

lemma clamped_query_positive: "0 < calculateHeightAtPosition probeEngine 1 (1 / 2)"
proof -
  have r: "getWaveRadius probeEngine (hd (we_waves probeEngine)) = 4"
    by (simp add: getWaveRadius_def probeEngine_def waveSpeed_def)
  have e: "0 < calculateEnvelope Fricative 50 (phoneticParams Fricative)"
    by (simp add: calculateEnvelope_def phoneticParams.simps Let_def)
  have "calculateHeightAtPosition probeEngine 1 (1 / 2)
      = calculateEnvelope Fricative 50 (phoneticParams Fricative) * exp (- (4 / 5))"
    using r
    by (simp add: calculateHeightAtPosition_def addWaveHeight_def probeEngine_def Let_def
        maxRadius_def arcSpan_def)
  then show ?thesis using e by simp
qed

text \<open>
  Claim C10.  For every engine state and every query with frequency below \<open>0\<close> or above
  \<open>1\<close>, or time below \<open>0\<close> or above \<open>1\<close>, \<open>calculateHeightAtPosition\<close> returns exactly
  \<open>0\<close>: the bounds check comes first and no wave is looked at, the coordinates are not
  clamped into range.
\<close>

theorem C10_height_zero_out_of_range:
  assumes "frequency < 0 \<or> frequency > 1 \<or> time < 0 \<or> time > 1"
  shows "calculateHeightAtPosition s frequency time = 0"
  using assms by (simp add: calculateHeightAtPosition_def)

text \<open>
  On the probe engine the query at frequency \<open>1.5\<close> returns \<open>0\<close>, where sampling at the
  clamped frequency \<open>1\<close> would give a positive height; so does a query at time \<open>-0.25\<close>
  on an engine holding a vowel wave three seconds old.
\<close>

theorem C10_height_zero_out_of_range_witness:
  "calculateHeightAtPosition probeEngine (3 / 2) (1 / 2) = 0
   \<and> 0 < calculateHeightAtPosition probeEngine (max 0 (min 1 (3 / 2))) (1 / 2)
   \<and> calculateHeightAtPosition (updateTime_we 3 (generateWave_we Vowel initialWaveEngine))
         (1 / 2) (- (1 / 4)) = 0"
  using C10_height_zero_out_of_range [of "3 / 2" "1 / 2" probeEngine]
    C10_height_zero_out_of_range
      [of "1 / 2" "- (1 / 4)" "updateTime_we 3 (generateWave_we Vowel initialWaveEngine)"]
    clamped_query_positive
  by simp

end
